theory Spec2Isabelle
  imports Main "HOL-Library.AList" "HOL-Library.Sublist"
begin

section \<open>The Warning header: the separator expression of Transport.request\<close>

text \<open>
  Transport.ts, line 161, splits the value of the \<open>warning\<close> header with the regular
  expression \<^verbatim>\<open>/(?!\B"[^"]*),(?![^"]*"\B)/\<close>. The expression is kept as a value of
  \<open>rx\<close>, one constructor for each form it uses: a literal character, \<^verbatim>\<open>[^c]*\<close>, \<^verbatim>\<open>\B\<close>,
  a negative lookahead and concatenation. A position in the subject string is the pair of
  the characters already passed (nearest first) and the characters still ahead.
  \<open>rxMatch\<close> returns every way the expression matches at a position, in the
  backtracking order of the engine (\<^verbatim>\<open>[^c]*\<close> is greedy: the longest run first).
\<close>

datatype rx =
    Lit char
  | StarNot char
  | NotWordBoundary
  | NegAhead rx
  | Seq rx rx

text \<open>\<^verbatim>\<open>\w\<close> without the unicode flag: the ASCII letters, the digits and the underscore.\<close>

definition isWordChar :: "char \<Rightarrow> bool" where
  "isWordChar c =
     (let n = of_char c :: nat
      in (48 \<le> n \<and> n \<le> 57) \<or> (65 \<le> n \<and> n \<le> 90) \<or> (97 \<le> n \<and> n \<le> 122) \<or> n = 95)"

text \<open>Whether the character next to a position is a word character; no character is not.\<close>

fun wordAt :: "string \<Rightarrow> bool" where
  "wordAt [] = False"
| "wordAt (c # cs) = isWordChar c"

fun runsNot :: "char \<Rightarrow> string \<Rightarrow> string \<Rightarrow> (string \<times> string) list" where
  "runsNot q seen [] = [(seen, [])]"
| "runsNot q seen (c # cs) =
     (if c = q then [(seen, c # cs)]
      else runsNot q (c # seen) cs @ [(seen, c # cs)])"

fun rxMatch :: "rx \<Rightarrow> string \<times> string \<Rightarrow> (string \<times> string) list" where
  "rxMatch (Lit c) (seen, rest) =
     (case rest of [] \<Rightarrow> [] | d # ds \<Rightarrow> if d = c then [(d # seen, ds)] else [])"
| "rxMatch (StarNot q) (seen, rest) = runsNot q seen rest"
| "rxMatch NotWordBoundary (seen, rest) =
     (if wordAt seen = wordAt rest then [(seen, rest)] else [])"
| "rxMatch (NegAhead r) s = (if rxMatch r s = [] then [s] else [])"
| "rxMatch (Seq a b) s = concat (map (rxMatch b) (rxMatch a s))"

definition warningSeparator :: rx where
  "warningSeparator =
     Seq (NegAhead (Seq NotWordBoundary (Seq (Lit (CHR 0x22)) (StarNot (CHR 0x22)))))
       (Seq (Lit CHR '','')
         (NegAhead (Seq (StarNot (CHR 0x22)) (Seq (Lit (CHR 0x22)) NotWordBoundary))))"

text \<open>
  \<open>String.prototype.split\<close> with a separator expression: the subject is scanned from
  the left; where the separator matches, the piece collected so far is closed and the scan
  goes on behind the match. \<open>splitOn\<close> goes on one character behind the start of the
  match, which is where a match of \<open>warningSeparator\<close> ends (lemma
  \<open>warningSeparator_one_char\<close>). A subject with no match is returned whole, the empty
  string included.
\<close>

fun splitOn :: "rx \<Rightarrow> string \<Rightarrow> string \<Rightarrow> string \<Rightarrow> string list" where
  "splitOn r seen piece [] = [rev piece]"
| "splitOn r seen piece (c # cs) =
     (if rxMatch r (seen, c # cs) = [] then splitOn r (c # seen) (c # piece) cs
      else rev piece # splitOn r (c # seen) [] cs)"

definition splitWarning :: "string \<Rightarrow> string list" where
  "splitWarning v = splitOn warningSeparator [] [] v"

text \<open>
  The rule of the specification and of the comment at line 160 (\<^verbatim>\<open>split the string over
  the commas not inside quotes\<close>), written from those words: a comma separates when the
  number of double quotes to its left is even.
\<close>

fun splitOutsideQuotes :: "bool \<Rightarrow> string \<Rightarrow> string \<Rightarrow> string list" where
  "splitOutsideQuotes quoted piece [] = [rev piece]"
| "splitOutsideQuotes quoted piece (c # cs) =
     (if c = CHR 0x22 then splitOutsideQuotes (\<not> quoted) (c # piece) cs
      else if c = CHR '','' \<and> \<not> quoted then rev piece # splitOutsideQuotes quoted [] cs
      else splitOutsideQuotes quoted (c # piece) cs)"

definition specSplitWarning :: "string \<Rightarrow> string list" where
  "specSplitWarning v = splitOutsideQuotes False [] v"

section \<open>The data of Transport.ts\<close>

type_synonym conn = nat

text \<open>
  A request body is a string, a Buffer, a stream (an object with a \<open>pipe\<close> function) or
  any other value, which the Serializer has to encode. Streams and other values are opaque
  and carry an identity.
\<close>

datatype reqBody = BodyString string | BodyBuffer string | BodyStream nat | BodyObject nat

datatype qsval = QsAbsent | QsObject "(string \<times> string) list" | QsString string

datatype timeoutv = TimeNum int | TimeStr string

text \<open>
  The params object of \<open>request\<close>. A field that is null or undefined is \<open>None\<close>;
  \<open>p_ignore\<close> is \<open>None\<close> unless it is an array; \<open>p_remainingAttempts\<close> is the
  property under the symbol \<open>kRemainingAttempts\<close>. The object is threaded by value: each
  call of \<open>request\<close> returns the params as it left them, and a retry receives that value
  with the counter updated.
\<close>

record params =
  p_method :: string
  p_path :: string
  p_body :: "reqBody option"
  p_bulkBody :: "reqBody option"
  p_headers :: "(string \<times> string) list option"
  p_querystring :: qsval
  p_requestTimeout :: "timeoutv option"
  p_timeout :: "int option"
  p_ignore :: "nat list option"
  p_maxRetries :: "int option"
  p_asStream :: bool
  p_remainingAttempts :: "int option"

datatype resBody = ResNull | ResStream nat | ResText string | ResJson nat | ResBool bool

record result =
  r_body :: resBody
  r_statusCode :: "nat option"
  r_headers :: "(string \<times> string) list option"
  r_warnings :: "string list option"

datatype error =
    NoLivingConnectionsError string
  | ConnectionError string params
  | TimeoutError string
  | ResponseError result
  | SerializationError string
  | DeserializationError string
  | ConfigurationError string

text \<open>
  What a Connection hands to its callback as \<open>err\<close>: an instance of TimeoutError, or any
  other Error; both with their message.
\<close>

datatype netError = NetTimeout string | NetFailure string

datatype connResult = Failed netError | Responded nat "(string \<times> string) list"

text \<open>The Serializer is not part of Transport.ts; a throwing call returns \<open>Inl\<close>.\<close>

record serializer =
  serialize :: "reqBody \<Rightarrow> error + string"
  ndserialize :: "reqBody \<Rightarrow> error + string"
  qserialize :: "qsval \<Rightarrow> string"
  deserialize :: "string \<Rightarrow> error + nat"

text \<open>
  Callbacks are closures; each kind the code builds is a constructor. \<open>Caller i\<close> is a
  function handed in from outside, \<open>Noop\<close> the module's \<open>noop\<close>, \<open>Once g k\<close> the
  wrapper \<open>once(k)\<close> with its flag at \<open>g\<close>, and \<open>SniffDone k\<close> the arrow function of
  lines 259 to 276 around the callback \<open>k\<close> of \<open>sniff\<close>.
\<close>

datatype callback = Caller nat | Noop | Once nat callback | SniffDone callback

datatype cbval = Response result | Hosts resBody | Nothing

text \<open>
  What the Transport does to its collaborators, in the order it does it: the calls on the
  ConnectionPool and the Serializer, the events it emits, the network calls, and the runs of
  the callers' own functions. Values are recorded as they are at that moment.
\<close>

datatype action =
    PoolResurrect int
  | MarkDead conn
  | MarkAlive conn
  | PoolUpdate resBody
  | Serialize reqBody
  | NdSerialize reqBody
  | QSerialize qsval
  | Deserialize string
  | EmitRequest conn params
  | EmitResponse conn params result
  | EmitError error conn params
  | EmitSniffError error
  | ConnRequest conn params
  | Delivered nat "error option" cbval

text \<open>
  One call of \<open>connection.request\<close> and the closure variables of its callback. While
  \<open>Waiting\<close> the callback of line 131 has not run; \<open>Receiving\<close> is a response in buffered
  mode, whose \<open>data\<close>, \<open>error\<close> and \<open>end\<close> handlers are registered; \<open>Closed\<close> has no
  handler left.
\<close>

datatype phase = Waiting | Receiving | Closed

record exchange =
  x_connection :: conn
  x_params :: params
  x_attempts :: int
  x_callback :: callback
  x_result :: result
  x_statusCode :: nat
  x_headers :: "(string \<times> string) list"
  x_payload :: string
  x_phase :: phase

text \<open>
  The Transport object (its fields up to \<open>isSniffing\<close>) with what surrounds it: the
  \<open>ms\<close> library, the clock read by \<open>Date.now()\<close>, the answers of
  \<open>connectionPool.getConnection()\<close> in the order of the calls, the flags of the
  \<open>once\<close> wrappers, the exchanges issued so far and the actions so far.
  \<open>_sniffEnabled\<close> is assigned once, in the constructor, to
  \<^verbatim>\<open>typeof this.sniffInterval === 'number'\<close>, and neither field is written again: it is the
  test \<open>sniffEnabled\<close> on \<open>sniffInterval\<close>.
\<close>

record world =
  serializer :: serializer
  maxRetries :: int
  requestTimeout :: int
  suggestCompression :: bool
  sniffInterval :: "int option"
  sniffOnConnectionFault :: bool
  sniffEndpoint :: string
  nextSniff :: int
  isSniffing :: bool
  msLib :: "string \<Rightarrow> int"
  now :: int
  poolAnswers :: "nat \<Rightarrow> conn option"
  poolCalls :: nat
  onceCalled :: "nat \<Rightarrow> bool"
  nextGuard :: nat
  exchanges :: "exchange list"
  trace :: "action list"

definition sniffEnabled :: "world \<Rightarrow> bool" where
  "sniffEnabled w = (sniffInterval w \<noteq> None)"

definition emptyResult :: result where
  "emptyResult = \<lparr>r_body = ResNull, r_statusCode = None, r_headers = None, r_warnings = None\<rparr>"

definition logged :: "action list \<Rightarrow> world \<Rightarrow> world" where
  "logged acts w = w\<lparr>trace := trace w @ acts\<rparr>"

definition setExchange :: "nat \<Rightarrow> exchange \<Rightarrow> world \<Rightarrow> world" where
  "setExchange i x w = w\<lparr>exchanges := (exchanges w)[i := x]\<rparr>"

section \<open>The helpers of Transport.ts\<close>

definition toMs :: "(string \<Rightarrow> int) \<Rightarrow> timeoutv \<Rightarrow> int" where
  "toMs lib time = (case time of TimeStr s \<Rightarrow> lib s | TimeNum n \<Rightarrow> n)"

definition shouldSerialize :: "reqBody \<Rightarrow> bool" where
  "shouldSerialize obj = (case obj of BodyObject _ \<Rightarrow> True | _ \<Rightarrow> False)"

definition isStream :: "reqBody \<Rightarrow> bool" where
  "isStream obj = (case obj of BodyStream _ \<Rightarrow> True | _ \<Rightarrow> False)"

text \<open>
  \<open>Buffer.byteLength\<close>: strings are byte strings here. The code calls it on strings and
  Buffers only (a value that should be serialized has become a string, a stream is
  excluded by \<open>isStream\<close>).
\<close>

fun byteLength :: "reqBody \<Rightarrow> nat" where
  "byteLength (BodyString s) = length s"
| "byteLength (BodyBuffer b) = length b"
| "byteLength (BodyStream _) = 0"
| "byteLength (BodyObject _) = 0"

text \<open>\<^verbatim>\<open>'' + n\<close>: the decimal digits of a length.\<close>

fun decimal :: "nat \<Rightarrow> string" where
  "decimal n =
     (if n < 10 then [''0123456789'' ! n]
      else decimal (n div 10) @ [''0123456789'' ! (n mod 10)])"

text \<open>\<^verbatim>\<open>a || b\<close> on numbers that may be absent: zero and undefined are falsy.\<close>

fun orElse :: "int option \<Rightarrow> int \<Rightarrow> int" where
  "orElse None d = d"
| "orElse (Some a) d = (if a \<noteq> 0 then a else d)"

fun truthyTimeout :: "timeoutv option \<Rightarrow> bool" where
  "truthyTimeout None = False"
| "truthyTimeout (Some (TimeNum n)) = (n \<noteq> 0)"
| "truthyTimeout (Some (TimeStr s)) = (s \<noteq> [])"

definition withHeader :: "string \<Rightarrow> string \<Rightarrow> params \<Rightarrow> params" where
  "withHeader k v p =
     p\<lparr>p_headers := Some (AList.update k v (case p_headers p of Some h \<Rightarrow> h | None \<Rightarrow> []))\<rparr>"

fun startsWith :: "string \<Rightarrow> string \<Rightarrow> bool" where
  "startsWith [] s = True"
| "startsWith (c # cs) [] = False"
| "startsWith (c # cs) (d # ds) = (c = d \<and> startsWith cs ds)"

text \<open>\<^verbatim>\<open>s.indexOf(t) > -1\<close>.\<close>

fun includesStr :: "string \<Rightarrow> string \<Rightarrow> bool" where
  "includesStr t [] = (t = [])"
| "includesStr t (c # cs) = (startsWith t (c # cs) \<or> includesStr t cs)"

section \<open>Transport.request, getConnection and sniff\<close>

text \<open>Lines 98 to 101 and 113 to 116: the content headers of a body that is set.\<close>

definition contentHeaders :: "string \<Rightarrow> params \<Rightarrow> params" where
  "contentHeaders contentType p =
     (let p1 = withHeader ''Content-Type'' contentType p
      in case p_body p1 of
           None \<Rightarrow> p1
         | Some b \<Rightarrow>
             if isStream b = False
             then withHeader ''Content-Length'' (decimal (byteLength b)) p1
             else p1)"

text \<open>
  Lines 88 to 117: the body of the request. The result is the calls made on the
  Serializer and either the error it threw or the params as they are left.
\<close>

definition handleBody :: "serializer \<Rightarrow> params \<Rightarrow> action list \<times> (error + params)" where
  "handleBody ser p0 =
     (let p = p0\<lparr>p_headers := Some (case p_headers p0 of Some h \<Rightarrow> h | None \<Rightarrow> [])\<rparr>
      in case p_body p of
           Some b \<Rightarrow>
             (if shouldSerialize b then
                (case serialize ser b of
                   Inl err \<Rightarrow> ([Serialize b], Inl err)
                 | Inr s \<Rightarrow>
                     ([Serialize b],
                      Inr (contentHeaders ''application/json'' (p\<lparr>p_body := Some (BodyString s)\<rparr>))))
              else ([], Inr (contentHeaders ''application/json'' p)))
         | None \<Rightarrow>
             (case p_bulkBody p of
                Some bulk \<Rightarrow>
                  (if shouldSerialize bulk then
                     (case ndserialize ser bulk of
                        Inl err \<Rightarrow> ([NdSerialize bulk], Inl err)
                      | Inr s \<Rightarrow>
                          ([NdSerialize bulk],
                           Inr (contentHeaders ''application/x-ndjson''
                                  (p\<lparr>p_body := Some (BodyString s)\<rparr>))))
                   else ([], Inr (contentHeaders ''application/x-ndjson'' (p\<lparr>p_body := Some bulk\<rparr>))))
              | None \<Rightarrow> ([], Inr p)))"

text \<open>
  Lines 119 to 126: the remaining header, the query string and the timeout of the params
  that go out.
\<close>

definition outgoing :: "world \<Rightarrow> params \<Rightarrow> params" where
  "outgoing w p1 =
     (let p2 = (if suggestCompression w = True
                then withHeader ''Accept-Encoding'' ''gzip,deflate'' p1
                else p1);
          p3 = p2\<lparr>p_querystring := QsString (qserialize (serializer w) (p_querystring p2))\<rparr>
      in p3\<lparr>p_timeout :=
              Some (if truthyTimeout (p_requestTimeout p3)
                    then (case p_requestTimeout p3 of
                            Some t \<Rightarrow> toMs (msLib w) t
                          | None \<Rightarrow> requestTimeout w)
                    else requestTimeout w)\<rparr>)"

text \<open>
  Lines 128 to 131: the \<open>request\<close> event and the call of \<open>connection.request\<close>, which
  opens an exchange.
\<close>

definition send :: "conn \<Rightarrow> params \<Rightarrow> callback \<Rightarrow> int \<Rightarrow> world \<Rightarrow> world" where
  "send connection p1 callback attempts w =
     (let p4 = outgoing w p1;
          w1 = logged [QSerialize (p_querystring p1), EmitRequest connection p4,
                       ConnRequest connection p4] w
      in w1\<lparr>exchanges := exchanges w1 @
              [\<lparr>x_connection = connection, x_params = p4, x_attempts = attempts,
                x_callback = callback, x_result = emptyResult, x_statusCode = 0,
                x_headers = [], x_payload = [], x_phase = Waiting\<rparr>]\<rparr>)"

text \<open>
  Running a callback. \<open>Once g k\<close> runs \<open>k\<close> the first time only. \<open>SniffDone k\<close> is
  lines 260 to 275: \<open>nodesToHost\<close> and \<open>update\<close> are the pool's, recorded as
  \<open>PoolUpdate\<close> with the body they are given, and the hosts are named by that body.
\<close>

fun invoke :: "callback \<Rightarrow> error option \<Rightarrow> cbval \<Rightarrow> world \<Rightarrow> world" where
  "invoke (Caller i) e v w = logged [Delivered i e v] w"
| "invoke Noop e v w = w"
| "invoke (Once g k) e v w =
     (if onceCalled w g then w
      else invoke k e v (w\<lparr>onceCalled := (onceCalled w)(g := True)\<rparr>))"
| "invoke (SniffDone k) e v w =
     (let w1 = w\<lparr>isSniffing := False\<rparr>;
          w2 = (case sniffInterval w1 of
                  Some d \<Rightarrow> w1\<lparr>nextSniff := now w1 + d\<rparr>
                | None \<Rightarrow> w1)
      in case e of
           Some err \<Rightarrow> invoke k (Some err) Nothing (logged [EmitSniffError err] w2)
         | None \<Rightarrow>
             (case v of
                Response res \<Rightarrow>
                  invoke k None (Hosts (r_body res)) (logged [PoolUpdate (r_body res)] w2)
              | Hosts b \<Rightarrow> w2
              | Nothing \<Rightarrow> w2))"

definition sniffRequest :: "world \<Rightarrow> params" where
  "sniffRequest w =
     \<lparr>p_method = ''GET'', p_path = sniffEndpoint w, p_body = None, p_bulkBody = None,
      p_headers = None, p_querystring = QsAbsent, p_requestTimeout = None, p_timeout = None,
      p_ignore = None, p_maxRetries = None, p_asStream = False, p_remainingAttempts = None\<rparr>"

text \<open>
  \<open>request\<close> (lines 79 to 238), \<open>getConnection\<close> (lines 240 to 247) and \<open>sniff\<close>
  (lines 249 to 277) call each other. The recursion ends because \<open>sniff\<close> calls
  \<open>request\<close> only after it has set \<open>isSniffing\<close>, and is left at once when the flag is
  set. The abort handle that \<open>request\<close> returns is not modelled.
\<close>

function request :: "params \<Rightarrow> callback \<Rightarrow> world \<Rightarrow> world"
  and getConnection :: "world \<Rightarrow> conn option \<times> world"
  and sniff :: "callback \<Rightarrow> world \<Rightarrow> world"
where
  "request p cb w =
     (let callback = Once (nextGuard w) cb;
          w0 = w\<lparr>nextGuard := nextGuard w + 1\<rparr>;
          attempts = orElse (p_remainingAttempts p) (orElse (p_maxRetries p) (maxRetries w0));
          (connection, w1) = getConnection w0
      in case connection of
           None \<Rightarrow>
             invoke callback (Some (NoLivingConnectionsError ''There are not living connections''))
               (Response emptyResult) w1
         | Some c \<Rightarrow>
             (case handleBody (serializer w1) p of
                (acts, Inl err) \<Rightarrow> invoke callback (Some err) (Response emptyResult) (logged acts w1)
              | (acts, Inr p1) \<Rightarrow> send c p1 callback attempts (logged acts w1)))"
| "getConnection w =
     (let w1 = (if sniffEnabled w \<and> now w > nextSniff w then sniff Noop w else w);
          w2 = logged [PoolResurrect (now w)] w1
      in (poolAnswers w2 (poolCalls w2), w2\<lparr>poolCalls := poolCalls w2 + 1\<rparr>))"
| "sniff cb w =
     (if isSniffing w then w
      else request (sniffRequest w) (SniffDone cb) (w\<lparr>isSniffing := True\<rparr>))"
  by pat_completeness auto
termination
  by (relation "measure (\<lambda>x. case x of
         Inl (p, cb, w) \<Rightarrow> (if isSniffing w then 2 else 5)
       | Inr (Inl w) \<Rightarrow> (if isSniffing w then 1 else 4)
       | Inr (Inr (cb, w)) \<Rightarrow> (if isSniffing w then 0 else 3))") auto

section \<open>The handlers of an exchange\<close>

text \<open>
  The callback of \<open>connection.request\<close>, lines 131 to 175, for the exchange \<open>i\<close>. With
  an error: lines 132 to 154. With a response: the head is copied into the result; in
  stream mode the result is delivered at once, otherwise the exchange is left receiving.
\<close>

definition connectionCallback :: "nat \<Rightarrow> connResult \<Rightarrow> world \<Rightarrow> world" where
  "connectionCallback i cr w =
     (let x = exchanges w ! i;
          connection = x_connection x;
          params = x_params x;
          attempts = x_attempts x;
          callback = x_callback x
      in case cr of
           Failed err \<Rightarrow>
             (let w1 = logged [MarkDead connection] (setExchange i (x\<lparr>x_phase := Closed\<rparr>) w);
                  w2 = (if sniffOnConnectionFault w1 then sniff Noop w1 else w1)
              in if attempts > 0
                 then request (params\<lparr>p_remainingAttempts := Some (attempts - 1)\<rparr>) callback w2
                 else (let error = (case err of
                                      NetTimeout m \<Rightarrow> TimeoutError m
                                    | NetFailure m \<Rightarrow> ConnectionError m params)
                       in invoke callback (Some error) (Response (x_result x))
                            (logged [EmitError error connection params] w2)))
         | Responded statusCode headers \<Rightarrow>
             (let res = (x_result x)
                          \<lparr>r_statusCode := Some statusCode,
                           r_headers := Some headers,
                           r_warnings := (case map_of headers ''warning'' of
                                            Some v \<Rightarrow> Some (splitWarning v)
                                          | None \<Rightarrow> r_warnings (x_result x))\<rparr>
              in if p_asStream params
                 then (let streamed = res\<lparr>r_body := ResStream i\<rparr>
                       in invoke callback None (Response streamed)
                            (logged [EmitResponse connection params streamed]
                               (setExchange i (x\<lparr>x_result := streamed, x_statusCode := statusCode,
                                                x_headers := headers, x_phase := Closed\<rparr>) w)))
                 else setExchange i (x\<lparr>x_result := res, x_statusCode := statusCode,
                                      x_headers := headers, x_phase := Receiving\<rparr>) w))"

text \<open>Line 174.\<close>

definition onData :: "nat \<Rightarrow> string \<Rightarrow> world \<Rightarrow> world" where
  "onData i chunk w =
     (let x = exchanges w ! i in setExchange i (x\<lparr>x_payload := x_payload x @ chunk\<rparr>) w)"

text \<open>Line 175.\<close>

definition onError :: "nat \<Rightarrow> string \<Rightarrow> world \<Rightarrow> world" where
  "onError i message w =
     (let x = exchanges w ! i
      in invoke (x_callback x) (Some (ConnectionError message (x_params x)))
           (Response (x_result x)) w)"

text \<open>Lines 219 to 228: the \<open>response\<close> event and the delivery.\<close>

definition deliver :: "nat \<Rightarrow> result \<Rightarrow> bool \<Rightarrow> world \<Rightarrow> world" where
  "deliver i res ignoreStatusCode w =
     (let x = exchanges w ! i;
          isHead = (p_method (x_params x) = ''HEAD'');
          w1 = logged [EmitResponse (x_connection x) (x_params x) res] w
      in if ignoreStatusCode = False \<and> x_statusCode x \<ge> 400
         then invoke (x_callback x) (Some (ResponseError res)) (Response res) w1
         else (let res1 = (if isHead = True \<and> x_statusCode x = 404
                           then res\<lparr>r_body := ResBool False\<rparr> else res)
               in invoke (x_callback x) None (Response res1)
                    (setExchange i (x\<lparr>x_result := res1\<rparr>) w1)))"

text \<open>
  Line 200, first operand: \<^verbatim>\<open>Array.isArray(params.ignore) && params.ignore.indexOf(statusCode) > -1\<close>.
\<close>

definition inIgnoreList :: "params \<Rightarrow> nat \<Rightarrow> bool" where
  "inIgnoreList p statusCode =
     (case p_ignore p of Some codes \<Rightarrow> List.member codes statusCode | None \<Rightarrow> False)"

text \<open>Lines 198 to 217: the status code decides between the retry strategy and delivery.\<close>

definition classify :: "nat \<Rightarrow> result \<Rightarrow> world \<Rightarrow> world" where
  "classify i res w =
     (let x = exchanges w ! i;
          statusCode = x_statusCode x;
          isHead = (p_method (x_params x) = ''HEAD'');
          ignoreStatusCode =
            (inIgnoreList (x_params x) statusCode \<or> (isHead = True \<and> statusCode = 404));
          w0 = setExchange i (x\<lparr>x_result := res\<rparr>) w
      in if ignoreStatusCode = False \<and> (statusCode = 502 \<or> statusCode = 503 \<or> statusCode = 504)
         then (let w1 = logged [MarkDead (x_connection x)] w0
               in if x_attempts x > 0
                  then request ((x_params x)\<lparr>p_remainingAttempts := Some (x_attempts x - 1)\<rparr>)
                         (x_callback x) w1
                  else deliver i res ignoreStatusCode w1)
         else deliver i res ignoreStatusCode (logged [MarkAlive (x_connection x)] w0))"

text \<open>
  Lines 177 to 196: the body of the result, from the closure variables of the exchange.
  The result is the calls made on the Serializer and either the error it threw or the body.
\<close>

definition readBody :: "serializer \<Rightarrow> exchange \<Rightarrow> action list \<times> (error + resBody)" where
  "readBody ser x =
     (let isHead = (p_method (x_params x) = ''HEAD'');
          payload = x_payload x
      in if (case map_of (x_headers x) ''content-type'' of
               Some ct \<Rightarrow> includesStr ''application/json'' ct
             | None \<Rightarrow> False)
            \<and> isHead = False \<and> payload \<noteq> []
         then (case deserialize ser payload of
                 Inl err \<Rightarrow> ([Deserialize payload], Inl err)
               | Inr v \<Rightarrow> ([Deserialize payload], Inr (ResJson v)))
         else ([], Inr (if isHead = True then ResBool True else ResText payload)))"

text \<open>The \<open>end\<close> handler, lines 176 to 229.\<close>

definition onEnd :: "nat \<Rightarrow> world \<Rightarrow> world" where
  "onEnd i w =
     (let x = exchanges w ! i
      in case readBody (serializer w) x of
           (acts, Inl err) \<Rightarrow>
             invoke (x_callback x) (Some err) (Response (x_result x))
               (logged (acts @ [EmitError err (x_connection x) (x_params x)]) w)
         | (acts, Inr b) \<Rightarrow> classify i ((x_result x)\<lparr>r_body := b\<rparr>) (logged acts w))"

section \<open>The constructor and the event loop\<close>

record options =
  o_serializer :: serializer
  o_maxRetries :: int
  o_requestTimeout :: timeoutv
  o_suggestCompression :: bool
  o_sniffInterval :: "int option"
  o_sniffOnConnectionFault :: bool
  o_sniffEndpoint :: string
  o_sniffOnStart :: bool

text \<open>
  Lines 59 to 77, given the \<open>ms\<close> library, the time of construction and the answers the
  pool will give.
\<close>

definition newTransport ::
  "options \<Rightarrow> (string \<Rightarrow> int) \<Rightarrow> int \<Rightarrow> (nat \<Rightarrow> conn option) \<Rightarrow> world" where
  "newTransport opts lib time pool =
     (let w = \<lparr>serializer = o_serializer opts,
               maxRetries = o_maxRetries opts,
               requestTimeout = toMs lib (o_requestTimeout opts),
               suggestCompression = o_suggestCompression opts,
               sniffInterval = o_sniffInterval opts,
               sniffOnConnectionFault = o_sniffOnConnectionFault opts,
               sniffEndpoint = o_sniffEndpoint opts,
               nextSniff = (case o_sniffInterval opts of Some d \<Rightarrow> time + d | None \<Rightarrow> 0),
               isSniffing = False,
               msLib = lib, now = time, poolAnswers = pool, poolCalls = 0,
               onceCalled = (\<lambda>g. False), nextGuard = 0, exchanges = [], trace = []\<rparr>
      in if o_sniffOnStart opts then sniff Noop w else w)"

text \<open>
  Everything happens in turns of the event loop. A turn is a call from outside
  (\<open>request\<close> or \<open>sniff\<close>, with a callback of the caller's or, for \<open>sniff\<close>, without
  one), the callback of a waiting exchange, an event of a receiving response stream, or
  the clock moving. A caller's function is numbered by the \<open>once\<close> wrapper that the call
  creates. A Connection calls back once; a response stream may emit its events in any
  order and any number of times.
\<close>

datatype turn =
    CallRequest params
  | CallSniff bool
  | ConnectionResult nat connResult
  | StreamData nat string
  | StreamError nat string
  | StreamEnd nat
  | Tick int

definition inPhase :: "nat \<Rightarrow> phase \<Rightarrow> world \<Rightarrow> bool" where
  "inPhase i ph w = (i < length (exchanges w) \<and> x_phase (exchanges w ! i) = ph)"

fun step :: "turn \<Rightarrow> world \<Rightarrow> world" where
  "step (CallRequest p) w = request p (Caller (nextGuard w)) w"
| "step (CallSniff True) w = sniff (Caller (nextGuard w)) w"
| "step (CallSniff False) w = sniff Noop w"
| "step (ConnectionResult i cr) w = (if inPhase i Waiting w then connectionCallback i cr w else w)"
| "step (StreamData i chunk) w = (if inPhase i Receiving w then onData i chunk w else w)"
| "step (StreamError i message) w = (if inPhase i Receiving w then onError i message w else w)"
| "step (StreamEnd i) w = (if inPhase i Receiving w then onEnd i w else w)"
| "step (Tick t) w = w\<lparr>now := t\<rparr>"

fun run :: "turn list \<Rightarrow> world \<Rightarrow> world" where
  "run [] w = w"
| "run (t # ts) w = run ts (step t w)"

text \<open>Observations on the actions so far.\<close>

fun isAttempt :: "action \<Rightarrow> bool" where
  "isAttempt (ConnRequest c p) = True"
| "isAttempt a = False"

fun isDelivery :: "action \<Rightarrow> bool" where
  "isDelivery (Delivered i e v) = True"
| "isDelivery a = False"

fun deliveredTo :: "nat \<Rightarrow> action \<Rightarrow> bool" where
  "deliveredTo i (Delivered j e v) = (i = j)"
| "deliveredTo i a = False"

definition attemptsIssued :: "world \<Rightarrow> nat" where
  "attemptsIssued w = length (filter isAttempt (trace w))"

definition deliveries :: "nat \<Rightarrow> world \<Rightarrow> nat" where
  "deliveries i w = length (filter (deliveredTo i) (trace w))"

text \<open>\<^verbatim>\<open>params.headers[k]\<close>.\<close>

definition headerOf :: "params \<Rightarrow> string \<Rightarrow> string option" where
  "headerOf p k = (case p_headers p of Some h \<Rightarrow> map_of h k | None \<Rightarrow> None)"

text \<open>
  The actions that reach the network or the Serializer, and the marks on the pool.
\<close>

fun isWork :: "action \<Rightarrow> bool" where
  "isWork (ConnRequest c p) = True"
| "isWork (EmitRequest c p) = True"
| "isWork (Serialize b) = True"
| "isWork (NdSerialize b) = True"
| "isWork (QSerialize q) = True"
| "isWork (Deserialize s) = True"
| "isWork a = False"

fun isMarkDead :: "action \<Rightarrow> bool" where
  "isMarkDead (MarkDead c) = True"
| "isMarkDead a = False"

text \<open>
  The turns in which the exchanges \<open>i\<close>, \<open>i + 1\<close>, ... fail at the network level, one
  after the other, with the given errors.
\<close>

fun failures :: "nat \<Rightarrow> netError list \<Rightarrow> turn list" where
  "failures i [] = []"
| "failures i (e # es) = ConnectionResult i (Failed e) # failures (Suc i) es"

text \<open>
  The same with the clock: before the exchange fails, the time moves to the given value.
\<close>

fun failuresAt :: "nat \<Rightarrow> (int \<times> netError) list \<Rightarrow> turn list" where
  "failuresAt i [] = []"
| "failuresAt i ((t, e) # fs) = Tick t # ConnectionResult i (Failed e) # failuresAt (Suc i) fs"

text \<open>
  The retry budget of a request as line 82 resolves it on the first call: the override of
  the params, else the default of the Transport.
\<close>

definition retryBudget :: "params \<Rightarrow> world \<Rightarrow> int" where
  "retryBudget p w = orElse (p_maxRetries p) (maxRetries w)"

text \<open>
  The state of a retry chain on a Transport that does not sniff and whose pool always
  answers: the last exchange is waiting for its connection, has at least one attempt left
  and carries no body, and \<open>budget\<close> is what line 82 falls back on.
\<close>

definition retrying :: "int \<Rightarrow> world \<Rightarrow> bool" where
  "retrying budget w =
     (sniffInterval w = None \<and> sniffOnConnectionFault w = False
      \<and> (\<forall>n. poolAnswers w n \<noteq> None)
      \<and> exchanges w \<noteq> []
      \<and> x_phase (last (exchanges w)) = Waiting
      \<and> 1 \<le> x_attempts (last (exchanges w))
      \<and> p_body (x_params (last (exchanges w))) = None
      \<and> p_bulkBody (x_params (last (exchanges w))) = None
      \<and> retryBudget (x_params (last (exchanges w))) w = budget)"

text \<open>
  The state of a sniff run whose discovery request is in flight: the flag is set, the pool
  always answers, the Transport's budget is at least 1, and the last exchange is waiting
  for its connection, has at least one attempt left and carries neither a body nor a
  budget of its own.
\<close>

definition discovering :: "world \<Rightarrow> bool" where
  "discovering w =
     (isSniffing w
      \<and> (\<forall>n. poolAnswers w n \<noteq> None)
      \<and> 1 \<le> maxRetries w
      \<and> exchanges w \<noteq> []
      \<and> x_phase (last (exchanges w)) = Waiting
      \<and> 1 \<le> x_attempts (last (exchanges w))
      \<and> p_body (x_params (last (exchanges w))) = None
      \<and> p_bulkBody (x_params (last (exchanges w))) = None
      \<and> p_maxRetries (x_params (last (exchanges w))) = None)"

text \<open>
  For the single-invocation guard: the caller's function in which a callback ends, if
  any, and the flags of the \<open>once\<close> wrappers on the way to it. A callback is guarded
  when the flag that carries the number of its caller is on that way; a world is guarded
  when the callbacks of all its exchanges are, no caller's function has run more than
  once, and the flag of one that has run is set.
\<close>

fun target :: "callback \<Rightarrow> nat option" where
  "target (Caller i) = Some i"
| "target Noop = None"
| "target (Once g k) = target k"
| "target (SniffDone k) = target k"

fun guardsOf :: "callback \<Rightarrow> nat list" where
  "guardsOf (Caller i) = []"
| "guardsOf Noop = []"
| "guardsOf (Once g k) = g # guardsOf k"
| "guardsOf (SniffDone k) = guardsOf k"

definition guarded :: "callback \<Rightarrow> bool" where
  "guarded k = (case target k of None \<Rightarrow> True | Some i \<Rightarrow> i \<in> set (guardsOf k))"

definition guardedWorld :: "world \<Rightarrow> bool" where
  "guardedWorld w =
     ((\<forall>x \<in> set (exchanges w). guarded (x_callback x))
      \<and> (\<forall>i. deliveries i w \<le> 1 \<and> (deliveries i w = 1 \<longrightarrow> onceCalled w i)))"

section \<open>Example inputs\<close>

text \<open>
  A Serializer that encodes every value as an empty object and accepts a payload that
  starts with a brace; a Transport with a given default budget, no sniffing and a pool
  that always answers with connection 0, or never answers; the same Transport sniffing
  every 1000 ms, without retries and with a given budget; and a request without a body.
\<close>

definition exampleSerializer :: serializer where
  "exampleSerializer =
     \<lparr>serialize = (\<lambda>b. Inr ''{}''),
      ndserialize = (\<lambda>b. Inr ''{}''),
      qserialize = (\<lambda>q. case q of QsString s \<Rightarrow> s | QsObject kvs \<Rightarrow> [] | QsAbsent \<Rightarrow> []),
      deserialize = (\<lambda>s. if startsWith ''{'' s then Inr 0
                          else Inl (DeserializationError ''Unexpected token''))\<rparr>"

definition exampleOptions :: "int \<Rightarrow> options" where
  "exampleOptions retries =
     \<lparr>o_serializer = exampleSerializer, o_maxRetries = retries,
      o_requestTimeout = TimeNum 30000, o_suggestCompression = False,
      o_sniffInterval = None, o_sniffOnConnectionFault = False,
      o_sniffEndpoint = ''_nodes/_all/http'', o_sniffOnStart = False\<rparr>"

definition exampleTransport :: "int \<Rightarrow> world" where
  "exampleTransport retries = newTransport (exampleOptions retries) (\<lambda>s. 0) 0 (\<lambda>n. Some 0)"

definition emptyPoolTransport :: world where
  "emptyPoolTransport = newTransport (exampleOptions 3) (\<lambda>s. 0) 0 (\<lambda>n. None)"

definition sniffingTransport :: world where
  "sniffingTransport =
     newTransport ((exampleOptions 0)\<lparr>o_sniffInterval := Some 1000\<rparr>) (\<lambda>s. 0) 0 (\<lambda>n. Some 0)"

definition sniffingTransportWith :: "int \<Rightarrow> world" where
  "sniffingTransportWith retries =
     newTransport ((exampleOptions retries)\<lparr>o_sniffInterval := Some 1000\<rparr>) (\<lambda>s. 0) 0 (\<lambda>n. Some 0)"

definition exampleParams :: "string \<Rightarrow> params" where
  "exampleParams m =
     \<lparr>p_method = m, p_path = ''/'', p_body = None, p_bulkBody = None,
      p_headers = None, p_querystring = QsAbsent, p_requestTimeout = None, p_timeout = None,
      p_ignore = None, p_maxRetries = None, p_asStream = False, p_remainingAttempts = None\<rparr>"

text \<open>
  The params of the example request as they are sent; the world after one call of
  \<open>request\<close> on such a Transport, and after the head of the response to it has arrived.
\<close>

definition sentExample :: "string \<Rightarrow> params" where
  "sentExample m =
     (exampleParams m)\<lparr>p_headers := Some [], p_querystring := QsString [],
                        p_timeout := Some 30000\<rparr>"

definition afterCall :: "int \<Rightarrow> params \<Rightarrow> world" where
  "afterCall retries p = step (CallRequest p) (exampleTransport retries)"

definition afterHead :: "int \<Rightarrow> params \<Rightarrow> nat \<Rightarrow> (string \<times> string) list \<Rightarrow> world" where
  "afterHead retries p statusCode headers =
     step (ConnectionResult 0 (Responded statusCode headers)) (afterCall retries p)"

text \<open>The example request in stream mode.\<close>

definition streamedExample :: params where
  "streamedExample = (exampleParams ''GET'')\<lparr>p_asStream := True\<rparr>"

text \<open>A request that carries a document body and a bulk body.\<close>

definition bothBodies :: params where
  "bothBodies =
     (exampleParams ''POST'')\<lparr>p_body := Some (BodyString ''doc''),
                              p_bulkBody := Some (BodyString ''bulk'')\<rparr>"

section \<open>The endpoint functions\<close>

text \<open>
  The values an endpoint function reads from its params: JavaScript values, with objects
  and arrays as far as the code looks into them.
\<close>

datatype jsval =
    JUndefined
  | JNull
  | JBool bool
  | JNum int
  | JStr string
  | JObj "(string \<times> string) list"
  | JArr "int list"
  | JFun nat

fun typeofJs :: "jsval \<Rightarrow> string" where
  "typeofJs JUndefined = ''undefined''"
| "typeofJs JNull = ''object''"
| "typeofJs (JBool b) = ''boolean''"
| "typeofJs (JNum n) = ''number''"
| "typeofJs (JStr s) = ''string''"
| "typeofJs (JObj kvs) = ''object''"
| "typeofJs (JArr xs) = ''object''"
| "typeofJs (JFun f) = ''function''"

fun truthy :: "jsval \<Rightarrow> bool" where
  "truthy JUndefined = False"
| "truthy JNull = False"
| "truthy (JBool b) = b"
| "truthy (JNum n) = (n \<noteq> 0)"
| "truthy (JStr s) = (s \<noteq> [])"
| "truthy (JObj kvs) = True"
| "truthy (JArr xs) = True"
| "truthy (JFun f) = True"

text \<open>\<^verbatim>\<open>v == null\<close>.\<close>

fun nullish :: "jsval \<Rightarrow> bool" where
  "nullish JUndefined = True"
| "nullish JNull = True"
| "nullish v = False"

text \<open>\<^verbatim>\<open>params[key]\<close>: a missing property reads as undefined.\<close>

definition getProp :: "(string \<times> jsval) list \<Rightarrow> string \<Rightarrow> jsval" where
  "getProp obj key = (case map_of obj key of Some v \<Rightarrow> v | None \<Rightarrow> JUndefined)"

fun indexOf :: "'a list \<Rightarrow> 'a \<Rightarrow> nat option" where
  "indexOf [] y = None"
| "indexOf (x # xs) y = (if x = y then Some 0 else map_option Suc (indexOf xs y))"

fun joinWith :: "string \<Rightarrow> string list \<Rightarrow> string" where
  "joinWith sep [] = []"
| "joinWith sep [s] = s"
| "joinWith sep (s # t # ts) = s @ sep @ joinWith sep (t # ts)"

text \<open>The request object an endpoint function builds for \<open>makeRequest\<close>.\<close>

record apiRequest =
  a_method :: jsval
  a_path :: string
  a_querystring :: "(string \<times> jsval) list"
  a_body :: jsval
  a_headers :: jsval
  a_ignore :: jsval
  a_requestTimeout :: jsval

text \<open>
  The \<open>opts\<close> of a builder: \<open>makeRequest\<close> stands for the Transport, as the outcome it
  hands to the callback for a request; \<open>o_result\<close> is the shared result of \<open>opts\<close>.
  \<open>encodeURIComponent\<close> is the global function of that name, applied to any value.
\<close>

record 'r builderOpts =
  makeRequest :: "apiRequest \<Rightarrow> error option \<times> 'r"
  o_result :: 'r
  encodeURIComponent :: "jsval \<Rightarrow> string"

text \<open>
  The callbacks an endpoint function meets: a function of the caller's, or the arrow
  function of the promise branch, which settles the promise. An endpoint function is
  called with a function, nothing (null or undefined) or a params object first, and
  a callback or nothing second. It either calls a callback with an error or a result, or
  returns a promise.
\<close>

datatype apiCallback = UserFunction nat | SettlePromise

datatype apiArg = ArgNone | ArgFunction apiCallback | ArgParams "(string \<times> jsval) list"

datatype 'r promise = Resolved 'r | Rejected error | Unsettled

datatype 'r outcome = Called apiCallback "error option" 'r | Promised "'r promise"

text \<open>
  The promise after the call inside its executor: the arrow function rejects with a
  truthy error and resolves with the result otherwise.
\<close>

fun settle :: "'r outcome \<Rightarrow> 'r promise" where
  "settle (Called SettlePromise (Some err) res) = Rejected err"
| "settle (Called SettlePromise None res) = Resolved res"
| "settle (Called (UserFunction f) e res) = Unsettled"
| "settle (Promised pr) = Unsettled"

text \<open>The loop that builds the querystring object (lines 57 to 67 of snapshot.get_repository.js).\<close>

fun buildQuerystring ::
  "string list \<Rightarrow> string list \<Rightarrow> (string \<times> jsval) list \<Rightarrow> string list \<Rightarrow>
   (string \<times> jsval) list \<Rightarrow> (string \<times> jsval) list" where
  "buildQuerystring accepted camel obj [] querystring = querystring"
| "buildQuerystring accepted camel obj (key # keys) querystring =
     buildQuerystring accepted camel obj keys
       (if indexOf accepted key \<noteq> None then AList.update key (getProp obj key) querystring
        else (case indexOf camel key of
                Some camelIndex \<Rightarrow> AList.update (accepted ! camelIndex) (getProp obj key) querystring
              | None \<Rightarrow> querystring))"

text \<open>
  The request object, from the method on (lines 69 to 98 of snapshot.get_repository.js,
  54 to 83 of xpack.migration.get_assistance.js), or the error for headers that are not
  an object.
\<close>

definition buildRequest ::
  "(jsval \<Rightarrow> string) \<Rightarrow> jsval list \<Rightarrow> (string \<times> jsval) list \<Rightarrow> (string \<times> jsval) list \<Rightarrow>
   error + apiRequest" where
  "buildRequest enc parts obj querystring =
     (let method0 = (if nullish (getProp obj ''method'') then JStr ''GET'' else getProp obj ''method'')
      in if \<not> nullish (getProp obj ''headers'') \<and> typeofJs (getProp obj ''headers'') \<noteq> ''object''
         then Inl (ConfigurationError
                    (''Headers should be an object, instead got: '' @ typeofJs (getProp obj ''headers'')))
         else (let ignore0 = (if truthy (getProp obj ''ignore'') then getProp obj ''ignore'' else JNull);
                   ignore1 = (case ignore0 of JNum n \<Rightarrow> JArr [n] | v \<Rightarrow> v)
               in Inr \<lparr>a_method = method0,
                        a_path = ''/'' @ joinWith ''/'' (map enc (filter truthy parts)),
                        a_querystring = querystring,
                        a_body = JNull,
                        a_headers = (if truthy (getProp obj ''headers'') then getProp obj ''headers''
                                     else JNull),
                        a_ignore = ignore1,
                        a_requestTimeout = (if truthy (getProp obj ''requestTimeout'')
                                            then getProp obj ''requestTimeout'' else JNull)\<rparr>))"

text \<open>
  \<open>snapshotGetRepository\<close>, lines 13 to 101. The promise branch calls the function
  itself with the arrow function as its only argument.
\<close>

function snapshotGetRepository ::
  "'r builderOpts \<Rightarrow> apiArg \<Rightarrow> apiCallback option \<Rightarrow> 'r outcome" where
  "snapshotGetRepository opts a cb =
     (let (params, callback) =
            (case a of
               ArgFunction f \<Rightarrow> ([], Some f)
             | ArgNone \<Rightarrow> ([], None)
             | ArgParams obj \<Rightarrow> (obj, cb))
      in case callback of
           None \<Rightarrow> Promised (settle (snapshotGetRepository opts (ArgFunction SettlePromise) None))
         | Some k \<Rightarrow>
             if \<not> nullish (getProp params ''body'')
             then Called k (Some (ConfigurationError ''This API does not require a body''))
                    (o_result opts)
             else (case buildRequest (encodeURIComponent opts)
                          [JStr ''_snapshot'', getProp params ''repository''] params
                          (buildQuerystring
                             [''master_timeout'', ''local'', ''pretty'', ''human'', ''error_trace'',
                              ''source'', ''filter_path'']
                             [''masterTimeout'', ''local'', ''pretty'', ''human'', ''errorTrace'',
                              ''source'', ''filterPath'']
                             params (map fst params) []) of
                     Inl err \<Rightarrow> Called k (Some err) (o_result opts)
                   | Inr req \<Rightarrow> Called k (fst (makeRequest opts req)) (snd (makeRequest opts req))))"
  by pat_completeness auto
termination
  by (relation "measure (\<lambda>(opts, a, cb). case a of ArgFunction f \<Rightarrow> 0 | _ \<Rightarrow> 1)")
     (auto split: apiArg.splits)

text \<open>\<open>xpackMigrationGetAssistance\<close>, lines 14 to 86.\<close>

function xpackMigrationGetAssistance ::
  "'r builderOpts \<Rightarrow> apiArg \<Rightarrow> apiCallback option \<Rightarrow> 'r outcome" where
  "xpackMigrationGetAssistance opts a cb =
     (let (params, callback) =
            (case a of
               ArgFunction f \<Rightarrow> ([], Some f)
             | ArgNone \<Rightarrow> ([], None)
             | ArgParams obj \<Rightarrow> (obj, cb))
      in case callback of
           None \<Rightarrow>
             Promised (settle (xpackMigrationGetAssistance opts (ArgFunction SettlePromise) None))
         | Some k \<Rightarrow>
             (case buildRequest (encodeURIComponent opts)
                     [JStr ''_xpack'', JStr ''migration'', JStr ''assistance'', getProp params ''index'']
                     params
                     (buildQuerystring
                        [''allow_no_indices'', ''expand_wildcards'', ''ignore_unavailable'']
                        [''allowNoIndices'', ''expandWildcards'', ''ignoreUnavailable'']
                        params (map fst params) []) of
                Inl err \<Rightarrow> Called k (Some err) (o_result opts)
              | Inr req \<Rightarrow> Called k (fst (makeRequest opts req)) (snd (makeRequest opts req))))"
  by pat_completeness auto
termination
  by (relation "measure (\<lambda>(opts, a, cb). case a of ArgFunction f \<Rightarrow> 0 | _ \<Rightarrow> 1)")
     (auto split: apiArg.splits)

text \<open>
  The promise form as the specification words it: the outcome that the callback form
  delivers for the same params, as a promise (rejected with the error, resolved with the
  result otherwise).
\<close>

fun promiseOf :: "'r outcome \<Rightarrow> 'r promise" where
  "promiseOf (Called k (Some err) res) = Rejected err"
| "promiseOf (Called k None res) = Resolved res"
| "promiseOf (Promised pr) = pr"

text \<open>
  An example of \<open>opts\<close>: a Transport that answers every request with its path as the
  result, and an \<open>encodeURIComponent\<close> that is applied to plain names only.
\<close>

definition echoOpts :: "string builderOpts" where
  "echoOpts =
     \<lparr>makeRequest = (\<lambda>req. (None, a_path req)),
      o_result = [],
      encodeURIComponent = (\<lambda>v. case v of JStr s \<Rightarrow> s | _ \<Rightarrow> [])\<rparr>"

section \<open>Lemmas on the separator expression\<close>

lemma warningSeparator_one_char:
  "rxMatch warningSeparator (seen, c # cs) = [] \<or>
   rxMatch warningSeparator (seen, c # cs) = [(c # seen, cs)]"
  by (simp add: warningSeparator_def)

lemma ahead_runsNot:
  "\<not> isWordChar q \<Longrightarrow>
   (concat (map (rxMatch (Seq (Lit q) NotWordBoundary)) (runsNot q seen cs)) = []) =
     (case dropWhile (\<lambda>d. d \<noteq> q) cs of [] \<Rightarrow> True | d # ds \<Rightarrow> wordAt ds)"
proof (induction cs arbitrary: seen)
  case Nil
  then show ?case by simp
next
  case (Cons c cs)
  show ?case
  proof (cases "c = q")
    case True
    with Cons.prems show ?thesis by simp
  next
    case False
    with Cons.prems Cons.IH [of "c # seen"] show ?thesis by simp
  qed
qed

lemma quote_not_word: "\<not> isWordChar (CHR 0x22)"
  by (simp add: isWordChar_def)

lemma separator_rule:
  "(rxMatch warningSeparator (seen, c # cs) \<noteq> []) =
     (c = CHR '','' \<and>
      (case dropWhile (\<lambda>d. d \<noteq> CHR 0x22) cs of [] \<Rightarrow> True | d # ds \<Rightarrow> wordAt ds))"
proof (cases "c = CHR '',''")
  case True
  then show ?thesis
    using ahead_runsNot [OF quote_not_word, of "c # seen" cs]
    by (simp add: warningSeparator_def)
next
  case False
  then show ?thesis by (simp add: warningSeparator_def)
qed

section \<open>Lemmas on callbacks and traces\<close>

declare request.simps [simp del] getConnection.simps [simp del] sniff.simps [simp del]

lemma invoke_SniffDone:
  "invoke (SniffDone k) e v w =
     (let w2 = w\<lparr>isSniffing := False,
                 nextSniff := (case sniffInterval w of Some d \<Rightarrow> now w + d | None \<Rightarrow> nextSniff w)\<rparr>
      in case e of
           Some err \<Rightarrow> invoke k (Some err) Nothing (logged [EmitSniffError err] w2)
         | None \<Rightarrow>
             (case v of
                Response res \<Rightarrow>
                  invoke k None (Hosts (r_body res)) (logged [PoolUpdate (r_body res)] w2)
              | Hosts b \<Rightarrow> w2
              | Nothing \<Rightarrow> w2))"
  by (cases "sniffInterval w"; cases e; cases v) (simp_all add: Let_def)

declare invoke.simps(4) [simp del]

lemma logged_fields [simp]:
  "trace (logged acts w) = trace w @ acts"
  "exchanges (logged acts w) = exchanges w"
  "onceCalled (logged acts w) = onceCalled w"
  "nextGuard (logged acts w) = nextGuard w"
  "isSniffing (logged acts w) = isSniffing w"
  "nextSniff (logged acts w) = nextSniff w"
  "sniffInterval (logged acts w) = sniffInterval w"
  "sniffOnConnectionFault (logged acts w) = sniffOnConnectionFault w"
  "maxRetries (logged acts w) = maxRetries w"
  "poolAnswers (logged acts w) = poolAnswers w"
  "poolCalls (logged acts w) = poolCalls w"
  "now (logged acts w) = now w"
  "serializer (logged acts w) = serializer w"
  "suggestCompression (logged acts w) = suggestCompression w"
  "requestTimeout (logged acts w) = requestTimeout w"
  "msLib (logged acts w) = msLib w"
  "sniffEndpoint (logged acts w) = sniffEndpoint w"
  by (simp_all add: logged_def)

lemma setExchange_fields [simp]:
  "trace (setExchange i x w) = trace w"
  "exchanges (setExchange i x w) = (exchanges w)[i := x]"
  "onceCalled (setExchange i x w) = onceCalled w"
  "nextGuard (setExchange i x w) = nextGuard w"
  "isSniffing (setExchange i x w) = isSniffing w"
  "nextSniff (setExchange i x w) = nextSniff w"
  "sniffInterval (setExchange i x w) = sniffInterval w"
  "sniffOnConnectionFault (setExchange i x w) = sniffOnConnectionFault w"
  "maxRetries (setExchange i x w) = maxRetries w"
  "poolAnswers (setExchange i x w) = poolAnswers w"
  "poolCalls (setExchange i x w) = poolCalls w"
  "now (setExchange i x w) = now w"
  "serializer (setExchange i x w) = serializer w"
  "suggestCompression (setExchange i x w) = suggestCompression w"
  "requestTimeout (setExchange i x w) = requestTimeout w"
  "msLib (setExchange i x w) = msLib w"
  "sniffEndpoint (setExchange i x w) = sniffEndpoint w"
  by (simp_all add: setExchange_def)

lemma invoke_exchanges [simp]: "exchanges (invoke k e v w) = exchanges w"
  by (induction k arbitrary: e v w)
     (auto simp: invoke_SniffDone Let_def split: option.splits cbval.splits)

lemma invoke_frame [simp]:
  "maxRetries (invoke k e v w) = maxRetries w"
  "sniffInterval (invoke k e v w) = sniffInterval w"
  "sniffOnConnectionFault (invoke k e v w) = sniffOnConnectionFault w"
  "poolAnswers (invoke k e v w) = poolAnswers w"
  "poolCalls (invoke k e v w) = poolCalls w"
  "nextGuard (invoke k e v w) = nextGuard w"
  "now (invoke k e v w) = now w"
  "serializer (invoke k e v w) = serializer w"
  by (induction k arbitrary: e v w;
      auto simp: invoke_SniffDone Let_def split: option.splits cbval.splits)+

lemma invoke_trace: "prefix (trace w) (trace (invoke k e v w))"
proof (induction k arbitrary: e v w)
  case (Once g k)
  from Once [of "w\<lparr>onceCalled := (onceCalled w)(g := True)\<rparr>" e v]
  show ?case by simp
next
  case (SniffDone k)
  define w2 where "w2 = w\<lparr>isSniffing := False,
      nextSniff := (case sniffInterval w of Some d \<Rightarrow> now w + d | None \<Rightarrow> nextSniff w)\<rparr>"
  have "prefix (trace w @ acts) (trace (invoke k e' v' (logged acts w2)))" for acts e' v'
    using SniffDone [of "logged acts w2" e' v'] by (simp add: w2_def)
  then have "prefix (trace w) (trace (invoke k e' v' (logged acts w2)))" for acts e' v'
    using append_prefixD by blast
  then show ?case
    by (auto simp: invoke_SniffDone Let_def w2_def [symmetric] split: option.splits cbval.splits)
       (simp add: w2_def)+
qed simp_all

lemma send_trace: "prefix (trace w) (trace (send c p k a w))"
  by (simp add: send_def Let_def)

lemma request_none:
  "getConnection (w\<lparr>nextGuard := Suc (nextGuard w)\<rparr>) = (None, w1) \<Longrightarrow>
   request p cb w =
     invoke (Once (nextGuard w) cb)
       (Some (NoLivingConnectionsError ''There are not living connections''))
       (Response emptyResult) w1"
  by (simp add: request.simps [of p cb w] Let_def)

lemma request_thrown:
  "getConnection (w\<lparr>nextGuard := Suc (nextGuard w)\<rparr>) = (Some c, w1) \<Longrightarrow>
   handleBody (serializer w1) p = (acts, Inl err) \<Longrightarrow>
   request p cb w =
     invoke (Once (nextGuard w) cb) (Some err) (Response emptyResult) (logged acts w1)"
  by (simp add: request.simps [of p cb w] Let_def)

lemma request_sent:
  "getConnection (w\<lparr>nextGuard := Suc (nextGuard w)\<rparr>) = (Some c, w1) \<Longrightarrow>
   handleBody (serializer w1) p = (acts, Inr p1) \<Longrightarrow>
   request p cb w =
     send c p1 (Once (nextGuard w) cb)
       (orElse (p_remainingAttempts p) (orElse (p_maxRetries p) (maxRetries w)))
       (logged acts w1)"
  by (simp add: request.simps [of p cb w] Let_def)

lemma request_trace:
  "prefix (trace w) (trace (request p cb w))"
  "prefix (trace w) (trace (snd (getConnection w)))"
  "prefix (trace w) (trace (sniff cb w))"
proof (induction p cb w and w and cb w rule: request_getConnection_sniff.induct)
  case (1 p cb w)
  define w0 where "w0 = w\<lparr>nextGuard := Suc (nextGuard w)\<rparr>"
  obtain c w1 where g: "getConnection w0 = (c, w1)" by (cases "getConnection w0")
  have a: "prefix (trace w) (trace w1)"
    using 1 [of "Once (nextGuard w) cb" w0] g by (simp add: w0_def)
  have b: "prefix (trace w1) (trace (invoke k e v (logged acts w1)))" for k e v acts
    using invoke_trace [of "logged acts w1" k e v] append_prefixD by auto
  have c: "prefix (trace w1) (trace (send c' p' k a (logged acts w1)))" for c' p' k a acts
    using send_trace [of "logged acts w1" c' p' k a] append_prefixD by auto
  have d: "prefix (trace w1) (trace (invoke k e v w1))" for k e v
    by (rule invoke_trace)
  show ?case
  proof (cases c)
    case None
    have r: "request p cb w =
        invoke (Once (nextGuard w) cb)
          (Some (NoLivingConnectionsError ''There are not living connections''))
          (Response emptyResult) w1"
      using g None by (intro request_none) (simp add: w0_def)
    show ?thesis unfolding r by (rule prefix_order.trans [OF a d])
  next
    case (Some c')
    obtain acts r where h: "handleBody (serializer w1) p = (acts, r)"
      by (cases "handleBody (serializer w1) p")
    show ?thesis
    proof (cases r)
      case (Inl err)
      have r: "request p cb w =
          invoke (Once (nextGuard w) cb) (Some err) (Response emptyResult) (logged acts w1)"
        using g Some h Inl by (intro request_thrown [of w c']) (simp_all add: w0_def)
      show ?thesis unfolding r by (rule prefix_order.trans [OF a b])
    next
      case (Inr p1)
      have r: "request p cb w =
          send c' p1 (Once (nextGuard w) cb)
            (orElse (p_remainingAttempts p) (orElse (p_maxRetries p) (maxRetries w)))
            (logged acts w1)"
        using g Some h Inr by (intro request_sent) (simp_all add: w0_def)
      show ?thesis unfolding r by (rule prefix_order.trans [OF a c])
    qed
  qed
next
  case (2 w)
  then show ?case
    by (auto simp: getConnection.simps [of w] Let_def intro: prefix_order.trans)
next
  case (3 cb w)
  then show ?case
    by (auto simp: sniff.simps [of cb w])
qed

lemma invoke_work [simp]: "filter isWork (trace (invoke k e v w)) = filter isWork (trace w)"
  by (induction k arbitrary: e v w)
     (auto simp: invoke_SniffDone Let_def split: option.splits cbval.splits)

lemma invoke_not_sniffing: "\<not> isSniffing w \<Longrightarrow> \<not> isSniffing (invoke k e v w)"
  by (induction k arbitrary: e v w)
     (auto simp: invoke_SniffDone Let_def split: option.splits cbval.splits)

lemma invoke_nextSniff:
  "sniffInterval w = Some d \<Longrightarrow> nextSniff w = now w + d \<Longrightarrow>
   nextSniff (invoke k e v w) = now w + d"
  by (induction k arbitrary: e v w)
     (auto simp: invoke_SniffDone Let_def split: option.splits cbval.splits)

section \<open>Claims about sniffing\<close>

text \<open>
  Claim C10. When \<open>sniff\<close> is called while a sniff run is in progress (\<open>isSniffing\<close> is
  set), it returns at once: the world after the call is the world before it, so no request
  is issued, no field of the Transport changes and the callback is neither run nor kept.
\<close>

theorem C10_sniff_in_progress: "isSniffing w \<Longrightarrow> sniff cb w = w"
  by (simp add: sniff.simps)

text \<open>The same on a Transport whose flag is set.\<close>

theorem C10_sniff_in_progress_witness:
  "isSniffing ((exampleTransport 3)\<lparr>isSniffing := True\<rparr>) \<and>
   sniff (Caller 7) ((exampleTransport 3)\<lparr>isSniffing := True\<rparr>) =
     (exampleTransport 3)\<lparr>isSniffing := True\<rparr>"
  using C10_sniff_in_progress [of "(exampleTransport 3)\<lparr>isSniffing := True\<rparr>" "Caller 7"]
  by simp

section \<open>Claim about an empty pool\<close>

text \<open>
  Claim C8. When the selection at line 83 returns no connection, \<open>request\<close> is the run
  of the (wrapped) callback with a NoLivingConnectionsError and the empty result, in the
  world the selection left: no exchange is opened, and no call on the Serializer and no
  network call is added to those made before; there is no retry. With the flag of the new
  wrapper unset, a caller's function receives exactly that error as the next action.
\<close>

theorem C8_no_living_connections:
  assumes "getConnection (w\<lparr>nextGuard := Suc (nextGuard w)\<rparr>) = (None, w1)"
  shows "request p cb w =
           invoke (Once (nextGuard w) cb)
             (Some (NoLivingConnectionsError ''There are not living connections''))
             (Response emptyResult) w1
         \<and> exchanges (request p cb w) = exchanges w1
         \<and> filter isWork (trace (request p cb w)) = filter isWork (trace w1)
         \<and> (\<not> onceCalled w1 (nextGuard w) \<longrightarrow>
              trace (request p (Caller i) w) =
                trace w1 @ [Delivered i
                  (Some (NoLivingConnectionsError ''There are not living connections''))
                  (Response emptyResult)])"
  using request_none [OF assms] by simp

text \<open>On a Transport whose pool never answers.\<close>

lemma emptyPool_fields:
  "nextGuard emptyPoolTransport = 0"
  "onceCalled emptyPoolTransport = (\<lambda>g. False)"
  "exchanges emptyPoolTransport = []"
  by (simp_all add: emptyPoolTransport_def newTransport_def exampleOptions_def)

lemma emptyPool_selection:
  "getConnection (emptyPoolTransport\<lparr>nextGuard := Suc (nextGuard emptyPoolTransport)\<rparr>) =
     (None, emptyPoolTransport\<lparr>nextGuard := 1, poolCalls := 1, trace := [PoolResurrect 0]\<rparr>)"
  by (simp add: getConnection.simps emptyPoolTransport_def newTransport_def exampleOptions_def
        sniffEnabled_def Let_def logged_def)

theorem C8_no_living_connections_witness:
  "getConnection (emptyPoolTransport\<lparr>nextGuard := Suc (nextGuard emptyPoolTransport)\<rparr>) =
     (None, emptyPoolTransport\<lparr>nextGuard := 1, poolCalls := 1, trace := [PoolResurrect 0]\<rparr>)
   \<and> trace (request (exampleParams ''GET'') (Caller 0) emptyPoolTransport) =
       [PoolResurrect 0,
        Delivered 0 (Some (NoLivingConnectionsError ''There are not living connections''))
          (Response emptyResult)]
   \<and> exchanges (request (exampleParams ''GET'') (Caller 0) emptyPoolTransport) = []"
proof -
  note sel = emptyPool_selection
  from C8_no_living_connections [OF sel, of "exampleParams ''GET''" "Caller 0" 0]
  have "trace (request (exampleParams ''GET'') (Caller 0) emptyPoolTransport) =
       [PoolResurrect 0,
        Delivered 0 (Some (NoLivingConnectionsError ''There are not living connections''))
          (Response emptyResult)]"
    and "exchanges (request (exampleParams ''GET'') (Caller 0) emptyPoolTransport) = []"
    by (simp_all add: emptyPool_fields)
  with sel show ?thesis by blast
qed

text \<open>
  The completion of a sniff run. The callback that a starting sniff run hands to \<open>request\<close> is
  \<open>SniffDone k\<close>, which \<open>request\<close> wraps with \<open>once\<close>. When that wrapper runs for
  the first time, with an error or with a result, \<open>isSniffing\<close> is cleared and, with
  periodic sniffing enabled (\<open>sniffInterval\<close> a number \<open>d\<close>), \<open>nextSniff\<close> is the
  current time plus \<open>d\<close>; whatever the callback \<open>k\<close> of the run does then leaves both
  as they are.
\<close>

lemma sniff_completion:
  assumes "\<not> onceCalled w g"
  shows "isSniffing (invoke (Once g (SniffDone k)) e v w) = False
         \<and> (sniffInterval w = Some d \<longrightarrow>
              nextSniff (invoke (Once g (SniffDone k)) e v w) = now w + d)
         \<and> (\<not> isSniffing w \<longrightarrow>
              sniff k w = request (sniffRequest w) (SniffDone k) (w\<lparr>isSniffing := True\<rparr>))"
proof -
  have c: "isSniffing (invoke (Once g (SniffDone k)) e v w) = False"
    using assms
    by (cases "sniffInterval w"; cases e; cases v)
       (simp_all add: invoke.simps(4) Let_def invoke_not_sniffing)
  have d: "nextSniff (invoke (Once g (SniffDone k)) e v w) = now w + d"
    if "sniffInterval w = Some d"
    using assms that
    by (cases e; cases v) (simp_all add: invoke.simps(4) Let_def invoke_nextSniff)
  show ?thesis using c d by (simp add: sniff.simps)
qed

text \<open>On a Transport that sniffs every 1000 ms, for a run that ends in a timeout at time 5.\<close>

lemma sniffing_fields:
  "onceCalled sniffingTransport = (\<lambda>g. False)"
  "sniffInterval sniffingTransport = Some 1000"
  "now sniffingTransport = 0"
  "isSniffing sniffingTransport = False"
  by (simp_all add: sniffingTransport_def newTransport_def exampleOptions_def)

lemma sniff_completion_example:
  "\<not> onceCalled (sniffingTransport\<lparr>isSniffing := True, now := 5\<rparr>) 0
   \<and> isSniffing (invoke (Once 0 (SniffDone Noop)) (Some (TimeoutError ''Request timed out''))
        (Response emptyResult) (sniffingTransport\<lparr>isSniffing := True, now := 5\<rparr>)) = False
   \<and> nextSniff (invoke (Once 0 (SniffDone Noop)) (Some (TimeoutError ''Request timed out''))
        (Response emptyResult) (sniffingTransport\<lparr>isSniffing := True, now := 5\<rparr>)) = 1005
   \<and> sniff Noop sniffingTransport =
       request (sniffRequest sniffingTransport) (SniffDone Noop)
         (sniffingTransport\<lparr>isSniffing := True\<rparr>)"
proof -
  have g: "\<not> onceCalled (sniffingTransport\<lparr>isSniffing := True, now := 5\<rparr>) 0"
    by (simp add: sniffing_fields)
  have h: "\<not> onceCalled sniffingTransport 0"
    by (simp add: sniffing_fields)
  from sniff_completion [OF g, of Noop "Some (TimeoutError ''Request timed out'')"
      "Response emptyResult" 1000]
    sniff_completion [OF h, of Noop None Nothing 1000] g
  show ?thesis by (simp add: sniffing_fields)
qed

section \<open>Lemmas on the handlers of a response\<close>

lemma logged_nil [simp]: "logged [] w = w"
  by (simp add: logged_def)

lemma logged_logged [simp]: "logged bs (logged as w) = logged (as @ bs) w"
  by (simp add: logged_def)

lemma setExchange_logged: "setExchange i x (logged as w) = logged as (setExchange i x w)"
  by (simp add: logged_def setExchange_def)

lemma invoke_logged_trace: "prefix (trace w) (trace (invoke k e v (logged acts w)))"
proof -
  have "prefix (trace w @ acts) (trace (invoke k e v (logged acts w)))"
    using invoke_trace [of "logged acts w" k e v] by simp
  then show ?thesis by (rule append_prefixD)
qed

lemma readBody_head:
  "p_method (x_params x) = ''HEAD'' \<Longrightarrow> readBody ser x = ([], Inr (ResBool True))"
  by (simp add: readBody_def)

lemma deliver_success:
  assumes "i < length (exchanges w)" "x = exchanges w ! i"
    and "ign \<or> x_statusCode x < 400"
  shows "deliver i res ign w =
           (let res1 = (if p_method (x_params x) = ''HEAD'' \<and> x_statusCode x = 404
                        then res\<lparr>r_body := ResBool False\<rparr> else res)
            in invoke (x_callback x) None (Response res1)
                 (setExchange i (x\<lparr>x_result := res1\<rparr>)
                    (logged [EmitResponse (x_connection x) (x_params x) res] w)))"
  using assms by (auto simp: deliver_def Let_def)

lemma deliver_failure:
  assumes "x = exchanges w ! i" "\<not> ign" "x_statusCode x \<ge> 400"
  shows "deliver i res ign w =
           invoke (x_callback x) (Some (ResponseError res)) (Response res)
             (logged [EmitResponse (x_connection x) (x_params x) res] w)"
  using assms by (simp add: deliver_def Let_def)

lemma classify_retry:
  assumes "i < length (exchanges w)" "x = exchanges w ! i"
    and "x_statusCode x = 502 \<or> x_statusCode x = 503 \<or> x_statusCode x = 504"
    and "\<not> inIgnoreList (x_params x) (x_statusCode x)"
  shows "classify i res w =
           (let w1 = logged [MarkDead (x_connection x)] (setExchange i (x\<lparr>x_result := res\<rparr>) w)
            in if x_attempts x > 0
               then request ((x_params x)\<lparr>p_remainingAttempts := Some (x_attempts x - 1)\<rparr>)
                      (x_callback x) w1
               else invoke (x_callback x) (Some (ResponseError res)) (Response res)
                      (logged [EmitResponse (x_connection x) (x_params x) res] w1))"
proof -
  let ?w1 = "logged [MarkDead (x_connection x)] (setExchange i (x\<lparr>x_result := res\<rparr>) w)"
  have x1: "exchanges ?w1 ! i = x\<lparr>x_result := res\<rparr>"
    using assms(1) by simp
  have d: "deliver i res False ?w1 =
      invoke (x_callback x) (Some (ResponseError res)) (Response res)
        (logged [EmitResponse (x_connection x) (x_params x) res] ?w1)"
    using deliver_failure [of "x\<lparr>x_result := res\<rparr>" ?w1 i False res] x1 assms(3)
    by auto
  have ign: "(inIgnoreList (x_params x) (x_statusCode x) \<or>
      ((p_method (x_params x) = ''HEAD'') = True \<and> x_statusCode x = 404)) = False"
    using assms(3,4) by auto
  show ?thesis
    unfolding classify_def Let_def assms(2) [symmetric] ign
    using assms(3) d by (simp add: Let_def)
qed

lemma classify_other:
  assumes "i < length (exchanges w)" "x = exchanges w ! i"
    and "x_statusCode x \<noteq> 502" "x_statusCode x \<noteq> 503" "x_statusCode x \<noteq> 504"
  shows "classify i res w =
           deliver i res (inIgnoreList (x_params x) (x_statusCode x) \<or>
                          (p_method (x_params x) = ''HEAD'' \<and> x_statusCode x = 404))
             (logged [MarkAlive (x_connection x)] (setExchange i (x\<lparr>x_result := res\<rparr>) w))"
  using assms by (simp add: classify_def Let_def)

section \<open>Claims about the end of a response\<close>

text \<open>
  Claim C6. For an exchange of a HEAD request in buffered mode, the body is built without
  any call of \<open>deserialize\<close> and is the boolean \<open>true\<close>. At the end of a response
  with status 200 the callback is run without an error and with that body; at the end of a
  response with status 404 it is run without an error and with the body \<open>false\<close>, after
  the connection has been marked alive and the \<open>response\<close> event emitted: the status
  takes the path of an ignored status, not the error path of the statuses from 400.
\<close>

theorem C6_head_requests:
  fixes w :: world and i :: nat
  defines "x \<equiv> exchanges w ! i"
  defines "isTrue \<equiv> (x_result x)\<lparr>r_body := ResBool True\<rparr>"
  defines "isFalse \<equiv> (x_result x)\<lparr>r_body := ResBool False\<rparr>"
  assumes "i < length (exchanges w)" and "p_method (x_params x) = ''HEAD''"
  shows "readBody (serializer w) x = ([], Inr (ResBool True))
    \<and> (x_statusCode x = 200 \<longrightarrow>
         onEnd i w =
           invoke (x_callback x) None (Response isTrue)
             (logged [MarkAlive (x_connection x), EmitResponse (x_connection x) (x_params x) isTrue]
                (setExchange i (x\<lparr>x_result := isTrue\<rparr>) w)))
    \<and> (x_statusCode x = 404 \<longrightarrow>
         onEnd i w =
           invoke (x_callback x) None (Response isFalse)
             (logged [MarkAlive (x_connection x), EmitResponse (x_connection x) (x_params x) isTrue]
                (setExchange i (x\<lparr>x_result := isFalse\<rparr>) w)))"
proof -
  have rb: "readBody (serializer w) x = ([], Inr (ResBool True))"
    using assms(5) by (rule readBody_head)
  have e: "onEnd i w = classify i isTrue w"
    using rb by (simp add: onEnd_def Let_def x_def [symmetric] isTrue_def)
  let ?w1 = "logged [MarkAlive (x_connection x)] (setExchange i (x\<lparr>x_result := isTrue\<rparr>) w)"
  have x1: "exchanges ?w1 ! i = x\<lparr>x_result := isTrue\<rparr>" "i < length (exchanges ?w1)"
    using assms(4) by simp_all
  have c200: "onEnd i w =
      invoke (x_callback x) None (Response isTrue)
        (logged [MarkAlive (x_connection x), EmitResponse (x_connection x) (x_params x) isTrue]
           (setExchange i (x\<lparr>x_result := isTrue\<rparr>) w))" if s: "x_statusCode x = 200"
  proof -
    have "classify i isTrue w =
        deliver i isTrue (inIgnoreList (x_params x) (x_statusCode x) \<or>
                          (p_method (x_params x) = ''HEAD'' \<and> x_statusCode x = 404)) ?w1"
      using assms(4) s by (intro classify_other) (simp_all add: x_def)
    also have "\<dots> = invoke (x_callback x) None (Response isTrue)
        (setExchange i (x\<lparr>x_result := isTrue\<rparr>)
           (logged [EmitResponse (x_connection x) (x_params x) isTrue] ?w1))"
      using deliver_success [OF x1(2) x1(1) [symmetric], of _ isTrue] s by (simp add: Let_def)
    also have "setExchange i (x\<lparr>x_result := isTrue\<rparr>)
           (logged [EmitResponse (x_connection x) (x_params x) isTrue] ?w1) =
        logged [MarkAlive (x_connection x), EmitResponse (x_connection x) (x_params x) isTrue]
           (setExchange i (x\<lparr>x_result := isTrue\<rparr>) w)"
      by (simp add: setExchange_def logged_def)
    finally show ?thesis using e by simp
  qed
  have c404: "onEnd i w =
      invoke (x_callback x) None (Response isFalse)
        (logged [MarkAlive (x_connection x), EmitResponse (x_connection x) (x_params x) isTrue]
           (setExchange i (x\<lparr>x_result := isFalse\<rparr>) w))" if s: "x_statusCode x = 404"
  proof -
    have "classify i isTrue w =
        deliver i isTrue (inIgnoreList (x_params x) (x_statusCode x) \<or>
                          (p_method (x_params x) = ''HEAD'' \<and> x_statusCode x = 404)) ?w1"
      using assms(4) s by (intro classify_other) (simp_all add: x_def)
    also have "\<dots> = invoke (x_callback x) None (Response isFalse)
        (setExchange i (x\<lparr>x_result := isFalse\<rparr>)
           (logged [EmitResponse (x_connection x) (x_params x) isTrue] ?w1))"
      using deliver_success [OF x1(2) x1(1) [symmetric], of _ isTrue] s assms(5)
      by (simp add: Let_def isTrue_def isFalse_def)
    also have "setExchange i (x\<lparr>x_result := isFalse\<rparr>)
           (logged [EmitResponse (x_connection x) (x_params x) isTrue] ?w1) =
        logged [MarkAlive (x_connection x), EmitResponse (x_connection x) (x_params x) isTrue]
           (setExchange i (x\<lparr>x_result := isFalse\<rparr>) w)"
      by (simp add: setExchange_def logged_def)
    finally show ?thesis using e by simp
  qed
  show ?thesis using rb c200 c404 by blast
qed

text \<open>Evaluation on the example Transport.\<close>

lemmas eval_defs = request.simps getConnection.simps sniff.simps sniffEnabled_def
  handleBody_def send_def outgoing_def Let_def logged_def setExchange_def toMs_def inPhase_def
  connectionCallback_def emptyResult_def onEnd_def readBody_def classify_def deliver_def
  inIgnoreList_def onData_def onError_def withHeader_def contentHeaders_def

lemma exampleTransport_fields [simp]:
  "serializer (exampleTransport r) = exampleSerializer"
  "maxRetries (exampleTransport r) = r"
  "requestTimeout (exampleTransport r) = 30000"
  "suggestCompression (exampleTransport r) = False"
  "sniffInterval (exampleTransport r) = None"
  "sniffOnConnectionFault (exampleTransport r) = False"
  "nextSniff (exampleTransport r) = 0"
  "isSniffing (exampleTransport r) = False"
  "now (exampleTransport r) = 0"
  "poolAnswers (exampleTransport r) = (\<lambda>n. Some 0)"
  "poolCalls (exampleTransport r) = 0"
  "onceCalled (exampleTransport r) = (\<lambda>g. False)"
  "nextGuard (exampleTransport r) = 0"
  "exchanges (exampleTransport r) = []"
  "trace (exampleTransport r) = []"
  by (simp_all add: exampleTransport_def newTransport_def exampleOptions_def toMs_def)

lemma exampleSerializer_fields [simp]:
  "qserialize exampleSerializer QsAbsent = []"
  "qserialize exampleSerializer (QsString s) = s"
  "deserialize exampleSerializer ''<html>'' = Inl (DeserializationError ''Unexpected token'')"
  "serialize exampleSerializer b = Inr ''{}''"
  by (simp_all add: exampleSerializer_def)

lemma sentExample_fields [simp]:
  "p_method (sentExample m) = m"
  "p_body (sentExample m) = None"
  "p_bulkBody (sentExample m) = None"
  "p_headers (sentExample m) = Some []"
  "p_querystring (sentExample m) = QsString []"
  "p_requestTimeout (sentExample m) = None"
  "p_ignore (sentExample m) = None"
  "p_maxRetries (sentExample m) = None"
  "p_asStream (sentExample m) = False"
  "p_remainingAttempts (sentExample m) = None"
  by (simp_all add: sentExample_def exampleParams_def)

lemma sentExample_resent:
  "(sentExample m)\<lparr>p_remainingAttempts := a, p_headers := Some [],
                     p_querystring := QsString [], p_timeout := Some 30000\<rparr> =
   (sentExample m)\<lparr>p_remainingAttempts := a\<rparr>"
  by (simp add: sentExample_def)

lemma afterCall_example:
  "afterCall r (exampleParams m) =
     (exampleTransport r)
       \<lparr>poolCalls := 1, nextGuard := 1,
        exchanges :=
          [\<lparr>x_connection = 0, x_params = sentExample m, x_attempts = r,
            x_callback = Once 0 (Caller 0), x_result = emptyResult,
            x_statusCode = 0, x_headers = [], x_payload = [], x_phase = Waiting\<rparr>],
        trace :=
          [PoolResurrect 0, QSerialize QsAbsent, EmitRequest 0 (sentExample m),
           ConnRequest 0 (sentExample m)]\<rparr>"
  by (simp add: afterCall_def eval_defs sentExample_def exampleParams_def)

lemma afterHead_example:
  "map_of h ''warning'' = None \<Longrightarrow>
   afterHead r (exampleParams m) st h =
     (exampleTransport r)
       \<lparr>poolCalls := 1, nextGuard := 1,
        exchanges :=
          [\<lparr>x_connection = 0, x_params = sentExample m, x_attempts = r,
            x_callback = Once 0 (Caller 0),
            x_result = \<lparr>r_body = ResNull, r_statusCode = Some st, r_headers = Some h,
                         r_warnings = None\<rparr>,
            x_statusCode = st, x_headers = h, x_payload = [], x_phase = Receiving\<rparr>],
        trace :=
          [PoolResurrect 0, QSerialize QsAbsent, EmitRequest 0 (sentExample m),
           ConnRequest 0 (sentExample m)]\<rparr>"
  unfolding afterHead_def afterCall_example
  by (simp add: inPhase_def connectionCallback_def setExchange_def Let_def emptyResult_def)

text \<open>
  A HEAD request answered with 404, and one answered with 200: the caller receives
  \<open>false\<close> and \<open>true\<close>, each time without an error.
\<close>

theorem C6_head_requests_witness:
  "0 < length (exchanges (afterHead 3 (exampleParams ''HEAD'') 404 []))
   \<and> p_method (x_params (exchanges (afterHead 3 (exampleParams ''HEAD'') 404 []) ! 0)) = ''HEAD''
   \<and> x_statusCode (exchanges (afterHead 3 (exampleParams ''HEAD'') 404 []) ! 0) = 404
   \<and> filter isDelivery (trace (onEnd 0 (afterHead 3 (exampleParams ''HEAD'') 404 []))) =
       [Delivered 0 None
          (Response \<lparr>r_body = ResBool False, r_statusCode = Some 404, r_headers = Some [],
                     r_warnings = None\<rparr>)]
   \<and> x_statusCode (exchanges (afterHead 3 (exampleParams ''HEAD'') 200 []) ! 0) = 200
   \<and> filter isDelivery (trace (onEnd 0 (afterHead 3 (exampleParams ''HEAD'') 200 []))) =
       [Delivered 0 None
          (Response \<lparr>r_body = ResBool True, r_statusCode = Some 200, r_headers = Some [],
                     r_warnings = None\<rparr>)]"
  using C6_head_requests [of 0 "afterHead 3 (exampleParams ''HEAD'') 404 []"]
    C6_head_requests [of 0 "afterHead 3 (exampleParams ''HEAD'') 200 []"]
  by (simp add: afterHead_example logged_def setExchange_def)

text \<open>
  Claim C3, as amended. For an exchange in buffered mode (its response is being received)
  that ends with status 502, 503 or 504, not in the ignore list, and whose body is built
  without an error of the Serializer (\<open>readBody\<close> returns a body): the connection is
  marked dead before anything else; if attempts remain (the \<open>attempts\<close> of the call,
  \<open>x_attempts\<close>, is above zero) the end of the response is the retry, a call of
  \<open>request\<close> with the counter set to one less, which selects a connection anew; if none
  remain, the \<open>response\<close> event is emitted and the callback is run with a ResponseError
  that carries the result. Every action of the retry or of the delivery comes after the
  mark. By contrast, a network-level error on an exchange that waits for its connection,
  with no attempts remaining, is delivered, after the mark and the optional sniff, as the
  TimeoutError itself or as a ConnectionError with the message and the params. How the
  number of attempts goes from one call to the next is no part of the statement.
\<close>

theorem C3_retry_statuses:
  fixes w :: world and i :: nat and acts :: "action list" and b :: resBody
  defines "x \<equiv> exchanges w ! i"
  defines "res \<equiv> (x_result x)\<lparr>r_body := b\<rparr>"
  defines "w1 \<equiv> logged (acts @ [MarkDead (x_connection x)]) (setExchange i (x\<lparr>x_result := res\<rparr>) w)"
  defines "w2 \<equiv> (let v = logged [MarkDead (x_connection x)] (setExchange i (x\<lparr>x_phase := Closed\<rparr>) w)
                  in if sniffOnConnectionFault v then sniff Noop v else v)"
  assumes "i < length (exchanges w)"
  shows "(x_phase x = Receiving
          \<and> (x_statusCode x = 502 \<or> x_statusCode x = 503 \<or> x_statusCode x = 504)
          \<and> \<not> inIgnoreList (x_params x) (x_statusCode x)
          \<and> readBody (serializer w) x = (acts, Inr b) \<longrightarrow>
            (x_attempts x > 0 \<longrightarrow>
               step (StreamEnd i) w =
                 request ((x_params x)\<lparr>p_remainingAttempts := Some (x_attempts x - 1)\<rparr>)
                   (x_callback x) w1)
          \<and> (\<not> x_attempts x > 0 \<longrightarrow>
               step (StreamEnd i) w =
                 invoke (x_callback x) (Some (ResponseError res)) (Response res)
                   (logged [EmitResponse (x_connection x) (x_params x) res] w1))
          \<and> prefix (trace w @ acts @ [MarkDead (x_connection x)]) (trace (step (StreamEnd i) w)))
       \<and> (x_phase x = Waiting \<and> \<not> x_attempts x > 0 \<longrightarrow>
            step (ConnectionResult i (Failed (NetTimeout m))) w =
              invoke (x_callback x) (Some (TimeoutError m)) (Response (x_result x))
                (logged [EmitError (TimeoutError m) (x_connection x) (x_params x)] w2)
          \<and> step (ConnectionResult i (Failed (NetFailure m))) w =
              invoke (x_callback x) (Some (ConnectionError m (x_params x))) (Response (x_result x))
                (logged [EmitError (ConnectionError m (x_params x)) (x_connection x) (x_params x)]
                   w2)
          \<and> prefix (trace w @ [MarkDead (x_connection x)]) (trace w2))"
proof -
  have part1: "(x_attempts x > 0 \<longrightarrow>
               step (StreamEnd i) w =
                 request ((x_params x)\<lparr>p_remainingAttempts := Some (x_attempts x - 1)\<rparr>)
                   (x_callback x) w1)
          \<and> (\<not> x_attempts x > 0 \<longrightarrow>
               step (StreamEnd i) w =
                 invoke (x_callback x) (Some (ResponseError res)) (Response res)
                   (logged [EmitResponse (x_connection x) (x_params x) res] w1))
          \<and> prefix (trace w @ acts @ [MarkDead (x_connection x)]) (trace (step (StreamEnd i) w))"
    if ph: "x_phase x = Receiving"
      and st: "x_statusCode x = 502 \<or> x_statusCode x = 503 \<or> x_statusCode x = 504"
      and ig: "\<not> inIgnoreList (x_params x) (x_statusCode x)"
      and rb: "readBody (serializer w) x = (acts, Inr b)"
  proof -
    have s: "step (StreamEnd i) w = onEnd i w"
      using assms(5) ph by (simp add: inPhase_def x_def)
    have xl: "exchanges (logged acts w) ! i = x" "i < length (exchanges (logged acts w))"
      using assms(5) by (simp_all add: x_def)
    have e: "onEnd i w = classify i res (logged acts w)"
      using rb by (simp add: onEnd_def Let_def x_def [symmetric] res_def)
    have w1: "logged [MarkDead (x_connection x)]
                (setExchange i (x\<lparr>x_result := res\<rparr>) (logged acts w)) = w1"
      by (simp add: w1_def setExchange_def logged_def)
    have c: "classify i res (logged acts w) =
        (if x_attempts x > 0
         then request ((x_params x)\<lparr>p_remainingAttempts := Some (x_attempts x - 1)\<rparr>)
                (x_callback x) w1
         else invoke (x_callback x) (Some (ResponseError res)) (Response res)
                (logged [EmitResponse (x_connection x) (x_params x) res] w1))"
      using classify_retry [OF xl(2) xl(1) [symmetric] st ig, of res]
      by (simp only: Let_def w1)
    have t1: "trace w1 = trace w @ acts @ [MarkDead (x_connection x)]"
      by (simp add: w1_def)
    have p: "prefix (trace w @ acts @ [MarkDead (x_connection x)]) (trace (onEnd i w))"
    proof (cases "x_attempts x > 0")
      case True
      then show ?thesis
        using request_trace(1) [of w1] by (simp add: e c t1)
    next
      case False
      have "prefix (trace w1) (trace (invoke (x_callback x) (Some (ResponseError res)) (Response res)
                  (logged [EmitResponse (x_connection x) (x_params x) res] w1)))"
        by (rule invoke_logged_trace)
      with False show ?thesis by (simp add: e c t1)
    qed
    show ?thesis unfolding s using e c p by simp
  qed
  have part2: "step (ConnectionResult i (Failed (NetTimeout m))) w =
              invoke (x_callback x) (Some (TimeoutError m)) (Response (x_result x))
                (logged [EmitError (TimeoutError m) (x_connection x) (x_params x)] w2)
          \<and> step (ConnectionResult i (Failed (NetFailure m))) w =
              invoke (x_callback x) (Some (ConnectionError m (x_params x))) (Response (x_result x))
                (logged [EmitError (ConnectionError m (x_params x)) (x_connection x) (x_params x)]
                   w2)"
    if "x_phase x = Waiting" "\<not> x_attempts x > 0"
    using that assms(5)
    by (simp add: inPhase_def connectionCallback_def Let_def x_def [symmetric] w2_def)
  have part3: "prefix (trace w @ [MarkDead (x_connection x)]) (trace w2)"
    using request_trace(3) [of "logged [MarkDead (x_connection x)]
        (setExchange i (x\<lparr>x_phase := Closed\<rparr>) w)" Noop]
    by (simp add: w2_def Let_def)
  show ?thesis using part1 part2 part3 by blast
qed

text \<open>
  A 503 on a Transport with no retries is delivered as a ResponseError after the mark; on
  one with three retries the mark precedes the retry, which selects a connection and
  issues the request with two attempts left. On the Transport with no retries, a
  timeout of the waiting exchange is delivered as it is, and a refused connection as a
  ConnectionError with the message and the params.
\<close>

theorem C3_retry_statuses_witness:
  "x_phase (exchanges (afterHead 0 (exampleParams ''GET'') 503 []) ! 0) = Receiving
   \<and> x_statusCode (exchanges (afterHead 0 (exampleParams ''GET'') 503 []) ! 0) = 503
   \<and> \<not> inIgnoreList (x_params (exchanges (afterHead 0 (exampleParams ''GET'') 503 []) ! 0)) 503
   \<and> readBody exampleSerializer (exchanges (afterHead 0 (exampleParams ''GET'') 503 []) ! 0) =
        ([], Inr (ResText []))
   \<and> x_attempts (exchanges (afterHead 0 (exampleParams ''GET'') 503 []) ! 0) = 0
   \<and> drop 4 (trace (step (StreamEnd 0) (afterHead 0 (exampleParams ''GET'') 503 []))) =
       [MarkDead 0,
        EmitResponse 0 (sentExample ''GET'')
          \<lparr>r_body = ResText [], r_statusCode = Some 503, r_headers = Some [],
            r_warnings = None\<rparr>,
        Delivered 0
          (Some (ResponseError \<lparr>r_body = ResText [], r_statusCode = Some 503,
                                 r_headers = Some [], r_warnings = None\<rparr>))
          (Response \<lparr>r_body = ResText [], r_statusCode = Some 503, r_headers = Some [],
                      r_warnings = None\<rparr>)]
   \<and> x_attempts (exchanges (afterHead 3 (exampleParams ''GET'') 503 []) ! 0) = 3
   \<and> prefix [PoolResurrect 0, QSerialize QsAbsent, EmitRequest 0 (sentExample ''GET''),
              ConnRequest 0 (sentExample ''GET''), MarkDead 0]
        (trace (step (StreamEnd 0) (afterHead 3 (exampleParams ''GET'') 503 [])))
   \<and> drop 4 (trace (step (StreamEnd 0) (afterHead 3 (exampleParams ''GET'') 503 []))) =
       [MarkDead 0, PoolResurrect 0, QSerialize (QsString []),
        EmitRequest 0 ((sentExample ''GET'')\<lparr>p_remainingAttempts := Some 2\<rparr>),
        ConnRequest 0 ((sentExample ''GET'')\<lparr>p_remainingAttempts := Some 2\<rparr>)]
   \<and> x_phase (exchanges (afterCall 0 (exampleParams ''GET'')) ! 0) = Waiting
   \<and> x_attempts (exchanges (afterCall 0 (exampleParams ''GET'')) ! 0) = 0
   \<and> drop 4 (trace (step (ConnectionResult 0 (Failed (NetTimeout ''Request timed out'')))
                      (afterCall 0 (exampleParams ''GET'')))) =
       [MarkDead 0,
        EmitError (TimeoutError ''Request timed out'') 0 (sentExample ''GET''),
        Delivered 0 (Some (TimeoutError ''Request timed out'')) (Response emptyResult)]
   \<and> drop 4 (trace (step (ConnectionResult 0 (Failed (NetFailure ''ECONNREFUSED'')))
                      (afterCall 0 (exampleParams ''GET'')))) =
       [MarkDead 0,
        EmitError (ConnectionError ''ECONNREFUSED'' (sentExample ''GET'')) 0 (sentExample ''GET''),
        Delivered 0 (Some (ConnectionError ''ECONNREFUSED'' (sentExample ''GET'')))
          (Response emptyResult)]"
proof -
  let ?W0 = "afterHead 0 (exampleParams ''GET'') 503 []"
  let ?W3 = "afterHead 3 (exampleParams ''GET'') 503 []"
  let ?C0 = "afterCall 0 (exampleParams ''GET'')"
  have l: "0 < length (exchanges ?W0)" "0 < length (exchanges ?W3)" "0 < length (exchanges ?C0)"
    by (simp_all add: afterHead_example afterCall_example)
  have h0: "x_phase (exchanges ?W0 ! 0) = Receiving
      \<and> (x_statusCode (exchanges ?W0 ! 0) = 502 \<or> x_statusCode (exchanges ?W0 ! 0) = 503
         \<or> x_statusCode (exchanges ?W0 ! 0) = 504)
      \<and> \<not> inIgnoreList (x_params (exchanges ?W0 ! 0)) (x_statusCode (exchanges ?W0 ! 0))
      \<and> readBody (serializer ?W0) (exchanges ?W0 ! 0) = ([], Inr (ResText []))"
    by (simp add: afterHead_example inIgnoreList_def readBody_def)
  have h3: "x_phase (exchanges ?W3 ! 0) = Receiving
      \<and> (x_statusCode (exchanges ?W3 ! 0) = 502 \<or> x_statusCode (exchanges ?W3 ! 0) = 503
         \<or> x_statusCode (exchanges ?W3 ! 0) = 504)
      \<and> \<not> inIgnoreList (x_params (exchanges ?W3 ! 0)) (x_statusCode (exchanges ?W3 ! 0))
      \<and> readBody (serializer ?W3) (exchanges ?W3 ! 0) = ([], Inr (ResText []))"
    by (simp add: afterHead_example inIgnoreList_def readBody_def)
  have n0: "x_phase (exchanges ?C0 ! 0) = Waiting \<and> \<not> x_attempts (exchanges ?C0 ! 0) > 0"
    by (simp add: afterCall_example)
  have f: "x_phase (exchanges ?W0 ! 0) = Receiving" "x_statusCode (exchanges ?W0 ! 0) = 503"
    "\<not> inIgnoreList (x_params (exchanges ?W0 ! 0)) 503"
    "readBody exampleSerializer (exchanges ?W0 ! 0) = ([], Inr (ResText []))"
    "x_attempts (exchanges ?W0 ! 0) = 0" "x_attempts (exchanges ?W3 ! 0) = 3"
    "x_phase (exchanges ?C0 ! 0) = Waiting" "x_attempts (exchanges ?C0 ! 0) = 0"
    by (simp_all add: afterHead_example afterCall_example inIgnoreList_def readBody_def)
  note t0 = C3_retry_statuses [OF l(1), where acts = "[]" and b = "ResText []",
      THEN conjunct1, THEN mp, OF h0]
  note t3 = C3_retry_statuses [OF l(2), where acts = "[]" and b = "ResText []",
      THEN conjunct1, THEN mp, OF h3]
  note tt = C3_retry_statuses [OF l(3), where m = "''Request timed out''",
      THEN conjunct2, THEN mp, OF n0]
  note tf = C3_retry_statuses [OF l(3), where m = "''ECONNREFUSED''",
      THEN conjunct2, THEN mp, OF n0]
  have a: "drop 4 (trace (step (StreamEnd 0) ?W0)) =
       [MarkDead 0,
        EmitResponse 0 (sentExample ''GET'')
          \<lparr>r_body = ResText [], r_statusCode = Some 503, r_headers = Some [],
            r_warnings = None\<rparr>,
        Delivered 0
          (Some (ResponseError \<lparr>r_body = ResText [], r_statusCode = Some 503,
                                 r_headers = Some [], r_warnings = None\<rparr>))
          (Response \<lparr>r_body = ResText [], r_statusCode = Some 503, r_headers = Some [],
                      r_warnings = None\<rparr>)]"
    using t0 [THEN conjunct2, THEN conjunct1] f(5)
    by (simp add: afterHead_example logged_def setExchange_def del: step.simps)
  have tr: "trace ?W3 @ [] @ [MarkDead (x_connection (exchanges ?W3 ! 0))] =
      [PoolResurrect 0, QSerialize QsAbsent, EmitRequest 0 (sentExample ''GET''),
       ConnRequest 0 (sentExample ''GET''), MarkDead 0]"
    by (simp add: afterHead_example)
  have b: "prefix [PoolResurrect 0, QSerialize QsAbsent, EmitRequest 0 (sentExample ''GET''),
              ConnRequest 0 (sentExample ''GET''), MarkDead 0]
        (trace (step (StreamEnd 0) ?W3))"
    using t3 [THEN conjunct2, THEN conjunct2] unfolding tr .
  have b': "drop 4 (trace (step (StreamEnd 0) ?W3)) =
       [MarkDead 0, PoolResurrect 0, QSerialize (QsString []),
        EmitRequest 0 ((sentExample ''GET'')\<lparr>p_remainingAttempts := Some 2\<rparr>),
        ConnRequest 0 ((sentExample ''GET'')\<lparr>p_remainingAttempts := Some 2\<rparr>)]"
  proof -
    have g: "0 < x_attempts (exchanges ?W3 ! 0)"
      by (simp add: afterHead_example)
    show ?thesis
      unfolding t3 [THEN conjunct1, THEN mp, OF g]
      by (simp add: afterHead_example eval_defs sentExample_resent)
  qed
  have c: "drop 4 (trace (step (ConnectionResult 0 (Failed (NetTimeout ''Request timed out''))) ?C0)) =
       [MarkDead 0,
        EmitError (TimeoutError ''Request timed out'') 0 (sentExample ''GET''),
        Delivered 0 (Some (TimeoutError ''Request timed out'')) (Response emptyResult)]"
    using tt [THEN conjunct1]
    by (simp add: afterCall_example logged_def setExchange_def del: step.simps)
  have d: "drop 4 (trace (step (ConnectionResult 0 (Failed (NetFailure ''ECONNREFUSED''))) ?C0)) =
       [MarkDead 0,
        EmitError (ConnectionError ''ECONNREFUSED'' (sentExample ''GET'')) 0 (sentExample ''GET''),
        Delivered 0 (Some (ConnectionError ''ECONNREFUSED'' (sentExample ''GET'')))
          (Response emptyResult)]"
    using tf [THEN conjunct2, THEN conjunct1]
    by (simp add: afterCall_example logged_def setExchange_def del: step.simps)
  from f a b b' c d show ?thesis by blast
qed

text \<open>Three runs on the example Transport, and the world after the first retry of the third.\<close>

lemma deserialization_failure_example:
  "x_statusCode (exchanges
      (afterHead 3 (exampleParams ''GET'') 503 [(''content-type'', ''application/json'')]) ! 0)
     = 503
   \<and> x_attempts (exchanges
      (afterHead 3 (exampleParams ''GET'') 503 [(''content-type'', ''application/json'')]) ! 0)
     = 3
   \<and> trace (step (StreamEnd 0) (step (StreamData 0 ''<html>'')
        (afterHead 3 (exampleParams ''GET'') 503 [(''content-type'', ''application/json'')]))) =
       [PoolResurrect 0, QSerialize QsAbsent, EmitRequest 0 (sentExample ''GET''),
        ConnRequest 0 (sentExample ''GET''),
        Deserialize ''<html>'',
        EmitError (DeserializationError ''Unexpected token'') 0 (sentExample ''GET''),
        Delivered 0 (Some (DeserializationError ''Unexpected token''))
          (Response \<lparr>r_body = ResNull, r_statusCode = Some 503,
                      r_headers = Some [(''content-type'', ''application/json'')],
                      r_warnings = None\<rparr>)]"
  by (simp add: afterHead_example eval_defs)

lemma stream_mode_example:
  "filter isMarkDead (trace (run [CallRequest streamedExample,
          ConnectionResult 0 (Responded 503 [])] (exampleTransport 3))) = []
   \<and> attemptsIssued (run [CallRequest streamedExample,
          ConnectionResult 0 (Responded 503 [])] (exampleTransport 3)) = 1
   \<and> filter isDelivery (trace (run [CallRequest streamedExample,
          ConnectionResult 0 (Responded 503 [])] (exampleTransport 3))) =
       [Delivered 0 None
          (Response \<lparr>r_body = ResStream 0, r_statusCode = Some 503, r_headers = Some [],
                      r_warnings = None\<rparr>)]"
  by (simp add: eval_defs streamedExample_def exampleParams_def attemptsIssued_def)

lemma retried_example:
  "run [CallRequest (exampleParams ''GET''), ConnectionResult 0 (Responded 503 []), StreamEnd 0]
     (exampleTransport 1) =
   (exampleTransport 1)
     \<lparr>nextGuard := Suc (Suc 0), poolCalls := Suc (Suc 0),
      trace :=
        [PoolResurrect 0, QSerialize QsAbsent, EmitRequest 0 (sentExample ''GET''),
         ConnRequest 0 (sentExample ''GET''), MarkDead 0, PoolResurrect 0,
         QSerialize (QsString []),
         EmitRequest 0
           ((sentExample ''GET'')
              \<lparr>p_remainingAttempts := Some 0, p_headers := Some [],
               p_querystring := QsString [], p_timeout := Some 30000\<rparr>),
         ConnRequest 0
           ((sentExample ''GET'')
              \<lparr>p_remainingAttempts := Some 0, p_headers := Some [],
               p_querystring := QsString [], p_timeout := Some 30000\<rparr>)],
      exchanges :=
        [\<lparr>x_connection = 0, x_params = sentExample ''GET'', x_attempts = 1,
          x_callback = Once 0 (Caller 0),
          x_result = \<lparr>r_body = ResText [], r_statusCode = Some 503, r_headers = Some [],
                       r_warnings = None\<rparr>,
          x_statusCode = 503, x_headers = [], x_payload = [], x_phase = Receiving\<rparr>,
         \<lparr>x_connection = 0,
          x_params =
            (sentExample ''GET'')
              \<lparr>p_remainingAttempts := Some 0, p_headers := Some [],
               p_querystring := QsString [], p_timeout := Some 30000\<rparr>,
          x_attempts = 1, x_callback = Once (Suc 0) (Once 0 (Caller 0)),
          x_result = \<lparr>r_body = ResNull, r_statusCode = None, r_headers = None,
                       r_warnings = None\<rparr>,
          x_statusCode = 0, x_headers = [], x_payload = [], x_phase = Waiting\<rparr>]\<rparr>"
proof -
  have e: "run [CallRequest (exampleParams ''GET''), ConnectionResult 0 (Responded 503 []), StreamEnd 0]
     (exampleTransport 1) = step (StreamEnd 0) (afterHead 1 (exampleParams ''GET'') 503 [])"
    by (simp add: afterHead_def afterCall_def del: step.simps)
  show ?thesis
    unfolding e by (simp add: afterHead_example eval_defs)
qed

lemma exhausted_budget_example:
  "retryBudget (exampleParams ''GET'') (exampleTransport 1) = 1
   \<and> attemptsIssued (run [CallRequest (exampleParams ''GET''),
          ConnectionResult 0 (Responded 503 []), StreamEnd 0,
          ConnectionResult 1 (Responded 503 []), StreamEnd 1] (exampleTransport 1)) = 3
   \<and> filter isDelivery (trace (run [CallRequest (exampleParams ''GET''),
          ConnectionResult 0 (Responded 503 []), StreamEnd 0,
          ConnectionResult 1 (Responded 503 []), StreamEnd 1] (exampleTransport 1))) = []"
proof -
  have r: "run [CallRequest (exampleParams ''GET''),
          ConnectionResult 0 (Responded 503 []), StreamEnd 0,
          ConnectionResult 1 (Responded 503 []), StreamEnd 1] (exampleTransport 1) =
      run [ConnectionResult 1 (Responded 503 []), StreamEnd 1]
        (run [CallRequest (exampleParams ''GET''), ConnectionResult 0 (Responded 503 []),
              StreamEnd 0] (exampleTransport 1))"
    by (simp del: step.simps)
  show ?thesis
    unfolding r retried_example
    by (simp add: eval_defs attemptsIssued_def retryBudget_def exampleParams_def)
qed

text \<open>
  Claim C3 as stated fails, in three ways. A response with status 503 that announces JSON
  and whose payload the Serializer rejects ends in the delivery of the Serializer's error:
  the connection is not marked dead, no retry is made though three attempts are left, and
  the error is not a ResponseError. In stream mode a response with status 503 is delivered
  as a success when its head arrives, without a mark and without a retry. And with a
  budget of 1, the second response with status 503 finds the budget exhausted and is
  answered with a third attempt, not with a ResponseError: the call has read the stored
  counter 0 as absent (line 82).
\<close>

theorem C3_unmarked_delivery_unending_retry:
  "(x_statusCode (exchanges
      (afterHead 3 (exampleParams ''GET'') 503 [(''content-type'', ''application/json'')]) ! 0)
     = 503
   \<and> x_attempts (exchanges
      (afterHead 3 (exampleParams ''GET'') 503 [(''content-type'', ''application/json'')]) ! 0)
     = 3
   \<and> trace (step (StreamEnd 0) (step (StreamData 0 ''<html>'')
        (afterHead 3 (exampleParams ''GET'') 503 [(''content-type'', ''application/json'')]))) =
       [PoolResurrect 0, QSerialize QsAbsent, EmitRequest 0 (sentExample ''GET''),
        ConnRequest 0 (sentExample ''GET''),
        Deserialize ''<html>'',
        EmitError (DeserializationError ''Unexpected token'') 0 (sentExample ''GET''),
        Delivered 0 (Some (DeserializationError ''Unexpected token''))
          (Response \<lparr>r_body = ResNull, r_statusCode = Some 503,
                      r_headers = Some [(''content-type'', ''application/json'')],
                      r_warnings = None\<rparr>)])
   \<and> (filter isMarkDead (trace (run [CallRequest streamedExample,
          ConnectionResult 0 (Responded 503 [])] (exampleTransport 3))) = []
   \<and> attemptsIssued (run [CallRequest streamedExample,
          ConnectionResult 0 (Responded 503 [])] (exampleTransport 3)) = 1
   \<and> filter isDelivery (trace (run [CallRequest streamedExample,
          ConnectionResult 0 (Responded 503 [])] (exampleTransport 3))) =
       [Delivered 0 None
          (Response \<lparr>r_body = ResStream 0, r_statusCode = Some 503, r_headers = Some [],
                      r_warnings = None\<rparr>)])
   \<and> (retryBudget (exampleParams ''GET'') (exampleTransport 1) = 1
   \<and> attemptsIssued (run [CallRequest (exampleParams ''GET''),
          ConnectionResult 0 (Responded 503 []), StreamEnd 0,
          ConnectionResult 1 (Responded 503 []), StreamEnd 1] (exampleTransport 1)) = 3
   \<and> filter isDelivery (trace (run [CallRequest (exampleParams ''GET''),
          ConnectionResult 0 (Responded 503 []), StreamEnd 0,
          ConnectionResult 1 (Responded 503 []), StreamEnd 1] (exampleTransport 1))) = [])"
  using deserialization_failure_example stream_mode_example exhausted_budget_example
  by blast

section \<open>Claim about a request with two bodies\<close>

lemma withHeader_fields [simp]:
  "p_body (withHeader k v p) = p_body p"
  "p_bulkBody (withHeader k v p) = p_bulkBody p"
  "p_querystring (withHeader k v p) = p_querystring p"
  "p_requestTimeout (withHeader k v p) = p_requestTimeout p"
  "p_maxRetries (withHeader k v p) = p_maxRetries p"
  "p_remainingAttempts (withHeader k v p) = p_remainingAttempts p"
  "p_headers (withHeader k v p) =
     Some (AList.update k v (case p_headers p of Some h \<Rightarrow> h | None \<Rightarrow> []))"
  by (simp_all add: withHeader_def)

lemma headerOf_withHeader [simp]:
  "headerOf (withHeader k v p) k' = (if k' = k then Some v else headerOf p k')"
  by (simp add: headerOf_def update_conv' split: option.splits)

lemma contentHeaders_fields:
  "p_body (contentHeaders ct p) = p_body p"
  "p_bulkBody (contentHeaders ct p) = p_bulkBody p"
  "p_querystring (contentHeaders ct p) = p_querystring p"
  "headerOf (contentHeaders ct p) ''Content-Type'' = Some ct"
  by (simp_all add: contentHeaders_def Let_def split: option.splits)

lemma handleBody_body:
  assumes "p_body p = Some b" and "shouldSerialize b \<longrightarrow> serialize ser b = Inr s"
  shows "handleBody ser p =
           ((if shouldSerialize b then [Serialize b] else []),
            Inr (contentHeaders ''application/json''
                   (p\<lparr>p_headers := Some (case p_headers p of Some h \<Rightarrow> h | None \<Rightarrow> []),
                      p_body := Some (if shouldSerialize b then BodyString s else b)\<rparr>)))"
proof (cases "shouldSerialize b")
  case True
  with assms show ?thesis by (simp add: handleBody_def Let_def)
next
  case False
  have eq: "p\<lparr>p_headers := Some (case p_headers p of Some h \<Rightarrow> h | None \<Rightarrow> []), p_body := Some b\<rparr>
      = p\<lparr>p_headers := Some (case p_headers p of Some h \<Rightarrow> h | None \<Rightarrow> [])\<rparr>"
    using assms(1) by (intro params.equality) simp_all
  from False assms show ?thesis by (simp add: handleBody_def Let_def eq)
qed

lemma outgoing_fields [simp]:
  "p_body (outgoing w p) = p_body p"
  "p_bulkBody (outgoing w p) = p_bulkBody p"
  "p_maxRetries (outgoing w p) = p_maxRetries p"
  "p_remainingAttempts (outgoing w p) = p_remainingAttempts p"
  "headerOf (outgoing w p) ''Content-Type'' = headerOf p ''Content-Type''"
  by (simp_all add: outgoing_def Let_def headerOf_def update_conv' split: option.splits)

lemma send_world:
  "send c p k a w =
     w\<lparr>exchanges := exchanges w @
           [\<lparr>x_connection = c, x_params = outgoing w p, x_attempts = a, x_callback = k,
             x_result = emptyResult, x_statusCode = 0, x_headers = [], x_payload = [],
             x_phase = Waiting\<rparr>],
       trace := trace w @ [QSerialize (p_querystring p), EmitRequest c (outgoing w p),
                           ConnRequest c (outgoing w p)]\<rparr>"
  by (simp add: send_def Let_def logged_def)

lemma send_sent:
  "\<exists>q. trace (send c p k a w) =
          trace w @ [QSerialize (p_querystring p), EmitRequest c q, ConnRequest c q]
       \<and> p_body q = p_body p \<and> p_bulkBody q = p_bulkBody p
       \<and> headerOf q ''Content-Type'' = headerOf p ''Content-Type''"
  by (rule exI [of _ "outgoing w p"]) (simp add: send_world)

text \<open>
  Claim C4, as amended. For params that carry a document body and a bulk body,
  \<open>request\<close> does not reject the request: the document body takes precedence. With a
  connection selected and the body serialized without an error (or in no need of it),
  no callback is run; the network call is issued with params that hold the document body
  (serialized where needed) and the content type \<open>application/json\<close>, and that still
  hold the bulk body, which is not used.
\<close>

theorem C4_body_takes_precedence:
  assumes "p_body p = Some b" and "p_bulkBody p = Some bulk"
    and "shouldSerialize b \<longrightarrow> serialize (serializer w1) b = Inr s"
    and "getConnection (w\<lparr>nextGuard := Suc (nextGuard w)\<rparr>) = (Some c, w1)"
  shows "\<exists>q. trace (request p cb w) =
               trace w1 @ (if shouldSerialize b then [Serialize b] else []) @
               [QSerialize (p_querystring p), EmitRequest c q, ConnRequest c q]
            \<and> p_body q = Some (if shouldSerialize b then BodyString s else b)
            \<and> p_bulkBody q = Some bulk
            \<and> headerOf q ''Content-Type'' = Some ''application/json''"
proof -
  let ?acts = "if shouldSerialize b then [Serialize b] else []"
  let ?p1 = "contentHeaders ''application/json''
               (p\<lparr>p_headers := Some (case p_headers p of Some h \<Rightarrow> h | None \<Rightarrow> []),
                  p_body := Some (if shouldSerialize b then BodyString s else b)\<rparr>)"
  have h: "handleBody (serializer w1) p = (?acts, Inr ?p1)"
    using assms(1,3) by (rule handleBody_body)
  have r: "request p cb w =
      send c ?p1 (Once (nextGuard w) cb)
        (orElse (p_remainingAttempts p) (orElse (p_maxRetries p) (maxRetries w)))
        (logged ?acts w1)"
    using assms(4) h by (rule request_sent)
  have f: "p_body ?p1 = Some (if shouldSerialize b then BodyString s else b)"
    "p_bulkBody ?p1 = Some bulk" "p_querystring ?p1 = p_querystring p"
    "headerOf ?p1 ''Content-Type'' = Some ''application/json''"
    using assms(2) by (simp_all add: contentHeaders_fields)
  obtain q where q: "trace (send c ?p1 (Once (nextGuard w) cb)
        (orElse (p_remainingAttempts p) (orElse (p_maxRetries p) (maxRetries w)))
        (logged ?acts w1)) =
      trace (logged ?acts w1) @ [QSerialize (p_querystring ?p1), EmitRequest c q, ConnRequest c q]"
    "p_body q = p_body ?p1" "p_bulkBody q = p_bulkBody ?p1"
    "headerOf q ''Content-Type'' = headerOf ?p1 ''Content-Type''"
    using send_sent by blast
  have "trace (request p cb w) = trace w1 @ ?acts @
      [QSerialize (p_querystring p), EmitRequest c q, ConnRequest c q]"
    unfolding r q(1) f(3) by simp
  moreover have "p_body q = Some (if shouldSerialize b then BodyString s else b)"
    "p_bulkBody q = Some bulk"
    using q(2,3) f(1,2) by simp_all
  moreover have "headerOf q ''Content-Type'' = Some ''application/json''"
    using q(4) f(4) by simp
  ultimately show ?thesis by blast
qed

text \<open>The example request with both bodies, on the example Transport.\<close>

lemma bothBodies_sent:
  "afterCall 3 bothBodies =
     (exampleTransport 3)
       \<lparr>poolCalls := 1, nextGuard := 1,
        exchanges :=
          [\<lparr>x_connection = 0,
            x_params = bothBodies
              \<lparr>p_headers := Some [(''Content-Type'', ''application/json''),
                                  (''Content-Length'', ''3'')],
               p_querystring := QsString [], p_timeout := Some 30000\<rparr>,
            x_attempts = 3, x_callback = Once 0 (Caller 0), x_result = emptyResult,
            x_statusCode = 0, x_headers = [], x_payload = [], x_phase = Waiting\<rparr>],
        trace :=
          [PoolResurrect 0, QSerialize QsAbsent,
           EmitRequest 0 (bothBodies
              \<lparr>p_headers := Some [(''Content-Type'', ''application/json''),
                                  (''Content-Length'', ''3'')],
               p_querystring := QsString [], p_timeout := Some 30000\<rparr>),
           ConnRequest 0 (bothBodies
              \<lparr>p_headers := Some [(''Content-Type'', ''application/json''),
                                  (''Content-Length'', ''3'')],
               p_querystring := QsString [], p_timeout := Some 30000\<rparr>)]\<rparr>"
  by (simp add: afterCall_def eval_defs bothBodies_def exampleParams_def shouldSerialize_def
        isStream_def)

text \<open>
  Claim C4 as stated fails: for params with both bodies the only actions of \<open>request\<close>
  are the selection, the query string, the \<open>request\<close> event and the network call; the
  callback is not run, and the params of the call carry both bodies.
\<close>

theorem C4_both_bodies_sent:
  "p_body bothBodies = Some (BodyString ''doc'')
   \<and> p_bulkBody bothBodies = Some (BodyString ''bulk'')
   \<and> trace (request bothBodies (Caller 0) (exampleTransport 3)) =
       [PoolResurrect 0, QSerialize QsAbsent,
        EmitRequest 0 (bothBodies
           \<lparr>p_headers := Some [(''Content-Type'', ''application/json''),
                               (''Content-Length'', ''3'')],
            p_querystring := QsString [], p_timeout := Some 30000\<rparr>),
        ConnRequest 0 (bothBodies
           \<lparr>p_headers := Some [(''Content-Type'', ''application/json''),
                               (''Content-Length'', ''3'')],
            p_querystring := QsString [], p_timeout := Some 30000\<rparr>)]"
  using bothBodies_sent by (simp add: afterCall_def bothBodies_def)

lemma example_selection:
  "getConnection ((exampleTransport r)\<lparr>nextGuard := Suc (nextGuard (exampleTransport r))\<rparr>) =
     (Some 0, (exampleTransport r)\<lparr>poolCalls := 1, nextGuard := 1, trace := [PoolResurrect 0]\<rparr>)"
  by (simp add: getConnection.simps sniffEnabled_def Let_def logged_def)

theorem C4_body_takes_precedence_witness:
  "p_body bothBodies = Some (BodyString ''doc'')
   \<and> p_bulkBody bothBodies = Some (BodyString ''bulk'')
   \<and> \<not> shouldSerialize (BodyString ''doc'')
   \<and> getConnection ((exampleTransport 3)\<lparr>nextGuard := Suc (nextGuard (exampleTransport 3))\<rparr>) =
       (Some 0, (exampleTransport 3)\<lparr>poolCalls := 1, nextGuard := 1, trace := [PoolResurrect 0]\<rparr>)
   \<and> (\<exists>q. trace (request bothBodies (Caller 0) (exampleTransport 3)) =
             [PoolResurrect 0, QSerialize QsAbsent, EmitRequest 0 q, ConnRequest 0 q]
          \<and> p_body q = Some (BodyString ''doc'')
          \<and> p_bulkBody q = Some (BodyString ''bulk'')
          \<and> headerOf q ''Content-Type'' = Some ''application/json'')"
proof -
  have b: "p_body bothBodies = Some (BodyString ''doc'')"
    "p_bulkBody bothBodies = Some (BodyString ''bulk'')"
    "p_querystring bothBodies = QsAbsent"
    by (simp_all add: bothBodies_def exampleParams_def)
  have s: "\<not> shouldSerialize (BodyString ''doc'')"
    by (simp add: shouldSerialize_def)
  then have s': "shouldSerialize (BodyString ''doc'') \<longrightarrow>
      serialize (serializer ((exampleTransport 3)\<lparr>poolCalls := 1, nextGuard := 1,
        trace := [PoolResurrect 0]\<rparr>)) (BodyString ''doc'') = Inr []"
    by simp
  from C4_body_takes_precedence [OF b(1) b(2) s' example_selection, of "Caller 0"] s b(3)
  have "\<exists>q. trace (request bothBodies (Caller 0) (exampleTransport 3)) =
             [PoolResurrect 0, QSerialize QsAbsent, EmitRequest 0 q, ConnRequest 0 q]
          \<and> p_body q = Some (BodyString ''doc'')
          \<and> p_bulkBody q = Some (BodyString ''bulk'')
          \<and> headerOf q ''Content-Type'' = Some ''application/json''"
    by simp
  with b s example_selection show ?thesis by blast
qed

section \<open>The retry chain\<close>

lemma run_append: "run (ts @ us) w = run us (run ts w)"
  by (induction ts arbitrary: w) simp_all

lemma failures_append:
  "failures i (es @ [e]) = failures i es @ [ConnectionResult (i + length es) (Failed e)]"
  by (induction es arbitrary: i) simp_all

lemma getConnection_quiet:
  "sniffInterval w = None \<Longrightarrow>
   getConnection w =
     (poolAnswers w (poolCalls w),
      w\<lparr>poolCalls := Suc (poolCalls w), trace := trace w @ [PoolResurrect (now w)]\<rparr>)"
  by (simp add: getConnection.simps sniffEnabled_def Let_def logged_def)

lemma handleBody_none:
  "p_body p = None \<Longrightarrow> p_bulkBody p = None \<Longrightarrow>
   handleBody ser p =
     ([], Inr (p\<lparr>p_headers := Some (case p_headers p of Some h \<Rightarrow> h | None \<Rightarrow> [])\<rparr>))"
  by (simp add: handleBody_def Let_def)

text \<open>The world a request without a body leaves when sniffing is off and the pool answers.\<close>

lemma request_plain:
  assumes "sniffInterval w = None" "poolAnswers w (poolCalls w) = Some c"
    and "p_body p = None" "p_bulkBody p = None"
  shows "request p cb w =
     send c (p\<lparr>p_headers := Some (case p_headers p of Some h \<Rightarrow> h | None \<Rightarrow> [])\<rparr>)
       (Once (nextGuard w) cb)
       (orElse (p_remainingAttempts p) (orElse (p_maxRetries p) (maxRetries w)))
       (w\<lparr>poolCalls := Suc (poolCalls w), nextGuard := Suc (nextGuard w),
          trace := trace w @ [PoolResurrect (now w)]\<rparr>)"
proof -
  let ?w1 = "w\<lparr>poolCalls := Suc (poolCalls w), nextGuard := Suc (nextGuard w),
          trace := trace w @ [PoolResurrect (now w)]\<rparr>"
  have g: "getConnection (w\<lparr>nextGuard := Suc (nextGuard w)\<rparr>) = (Some c, ?w1)"
    using assms(1,2) by (simp add: getConnection_quiet)
  have h: "handleBody (serializer ?w1) p =
      ([], Inr (p\<lparr>p_headers := Some (case p_headers p of Some h \<Rightarrow> h | None \<Rightarrow> [])\<rparr>))"
    using assms(3,4) by (rule handleBody_none)
  show ?thesis using request_sent [OF g h, of cb] by simp
qed

lemma request_plain_effect:
  assumes "sniffInterval w = None" "poolAnswers w (poolCalls w) = Some c"
    and "p_body p = None" "p_bulkBody p = None"
  shows "\<exists>q. request p cb w =
          w\<lparr>poolCalls := Suc (poolCalls w), nextGuard := Suc (nextGuard w),
            exchanges := exchanges w @
                [\<lparr>x_connection = c, x_params = q,
                  x_attempts = orElse (p_remainingAttempts p) (orElse (p_maxRetries p) (maxRetries w)),
                  x_callback = Once (nextGuard w) cb,
                  x_result = emptyResult, x_statusCode = 0, x_headers = [], x_payload = [],
                  x_phase = Waiting\<rparr>],
            trace := trace w @ [PoolResurrect (now w), QSerialize (p_querystring p),
                                EmitRequest c q, ConnRequest c q]\<rparr>
       \<and> p_body q = None \<and> p_bulkBody q = None \<and> p_maxRetries q = p_maxRetries p"
proof -
  let ?p1 = "p\<lparr>p_headers := Some (case p_headers p of Some h \<Rightarrow> h | None \<Rightarrow> [])\<rparr>"
  let ?w1 = "w\<lparr>poolCalls := Suc (poolCalls w), nextGuard := Suc (nextGuard w),
          trace := trace w @ [PoolResurrect (now w)]\<rparr>"
  show ?thesis
    apply (rule exI [of _ "outgoing ?w1 ?p1"])
    using assms(3,4) by (simp add: request_plain [OF assms] send_world)
qed

lemma attemptsIssued_append [simp]:
  "attemptsIssued (w\<lparr>trace := trace w @ acts\<rparr>) = attemptsIssued w + length (filter isAttempt acts)"
  by (simp add: attemptsIssued_def)

lemma chain_start:
  assumes "sniffInterval w = None" "\<not> sniffOnConnectionFault w" "\<forall>n. poolAnswers w n \<noteq> None"
    and "p_body p = None" "p_bulkBody p = None" "p_remainingAttempts p = None"
    and "1 \<le> retryBudget p w"
  shows "retrying (retryBudget p w) (step (CallRequest p) w)
       \<and> length (exchanges (step (CallRequest p) w)) = Suc (length (exchanges w))
       \<and> attemptsIssued (step (CallRequest p) w) = Suc (attemptsIssued w)
       \<and> filter isDelivery (trace (step (CallRequest p) w)) = filter isDelivery (trace w)"
proof -
  obtain c where c: "poolAnswers w (poolCalls w) = Some c"
    using assms(3) by auto
  obtain q where q: "request p (Caller (nextGuard w)) w =
          w\<lparr>poolCalls := Suc (poolCalls w), nextGuard := Suc (nextGuard w),
            exchanges := exchanges w @
                [\<lparr>x_connection = c, x_params = q,
                  x_attempts = orElse (p_remainingAttempts p) (orElse (p_maxRetries p) (maxRetries w)),
                  x_callback = Once (nextGuard w) (Caller (nextGuard w)),
                  x_result = emptyResult, x_statusCode = 0, x_headers = [], x_payload = [],
                  x_phase = Waiting\<rparr>],
            trace := trace w @ [PoolResurrect (now w), QSerialize (p_querystring p),
                                EmitRequest c q, ConnRequest c q]\<rparr>"
    "p_body q = None" "p_bulkBody q = None" "p_maxRetries q = p_maxRetries p"
    using request_plain_effect [OF assms(1) c assms(4,5)] by blast
  show ?thesis
    using assms q(2,3,4)
    by (simp add: q(1) retrying_def retryBudget_def attemptsIssued_def)
qed

lemma chain_step:
  assumes "retrying b w" "1 \<le> b"
  shows "retrying b (step (ConnectionResult (length (exchanges w) - 1) (Failed e)) w)
       \<and> length (exchanges (step (ConnectionResult (length (exchanges w) - 1) (Failed e)) w))
           = Suc (length (exchanges w))
       \<and> attemptsIssued (step (ConnectionResult (length (exchanges w) - 1) (Failed e)) w)
           = Suc (attemptsIssued w)
       \<and> filter isDelivery (trace (step (ConnectionResult (length (exchanges w) - 1) (Failed e)) w))
           = filter isDelivery (trace w)"
proof -
  let ?i = "length (exchanges w) - 1"
  let ?x = "exchanges w ! ?i"
  have ne: "exchanges w \<noteq> []" and lx: "last (exchanges w) = ?x"
    using assms(1) by (simp_all add: retrying_def last_conv_nth)
  have x: "x_phase ?x = Waiting" "1 \<le> x_attempts ?x" "p_body (x_params ?x) = None"
    "p_bulkBody (x_params ?x) = None" "retryBudget (x_params ?x) w = b"
    and w: "sniffInterval w = None" "\<not> sniffOnConnectionFault w" "\<forall>n. poolAnswers w n \<noteq> None"
    using assms(1) by (simp_all add: retrying_def lx)
  let ?w1 = "logged [MarkDead (x_connection ?x)] (setExchange ?i (?x\<lparr>x_phase := Closed\<rparr>) w)"
  let ?p = "(x_params ?x)\<lparr>p_remainingAttempts := Some (x_attempts ?x - 1)\<rparr>"
  have ph: "inPhase ?i Waiting w"
    using ne x(1) by (simp add: inPhase_def)
  have s: "step (ConnectionResult ?i (Failed e)) w = request ?p (x_callback ?x) ?w1"
    using ph x(2) w(2) by (simp add: connectionCallback_def Let_def)
  obtain c where c: "poolAnswers ?w1 (poolCalls ?w1) = Some c"
    using w(3) by auto
  have w1: "sniffInterval ?w1 = None" using w(1) by simp
  obtain q where q: "request ?p (x_callback ?x) ?w1 =
          ?w1\<lparr>poolCalls := Suc (poolCalls ?w1), nextGuard := Suc (nextGuard ?w1),
            exchanges := exchanges ?w1 @
                [\<lparr>x_connection = c, x_params = q,
                  x_attempts = orElse (p_remainingAttempts ?p) (orElse (p_maxRetries ?p) (maxRetries ?w1)),
                  x_callback = Once (nextGuard ?w1) (x_callback ?x),
                  x_result = emptyResult, x_statusCode = 0, x_headers = [], x_payload = [],
                  x_phase = Waiting\<rparr>],
            trace := trace ?w1 @ [PoolResurrect (now ?w1), QSerialize (p_querystring ?p),
                                EmitRequest c q, ConnRequest c q]\<rparr>"
    "p_body q = None" "p_bulkBody q = None" "p_maxRetries q = p_maxRetries ?p"
    using request_plain_effect [OF w1 c, of ?p "x_callback ?x"] x(3,4) by auto
  have a: "1 \<le> orElse (p_remainingAttempts ?p) (orElse (p_maxRetries ?p) (maxRetries ?w1))"
    using x(2,5) assms(2) by (simp add: retryBudget_def)
  show ?thesis
    unfolding s q(1)
    using a q(2,3,4) w x(2,5) ne assms(2)
    by (simp add: retrying_def retryBudget_def attemptsIssued_def)
qed

lemma chain:
  assumes "sniffInterval w = None" "\<not> sniffOnConnectionFault w" "\<forall>n. poolAnswers w n \<noteq> None"
    and "p_body p = None" "p_bulkBody p = None" "p_remainingAttempts p = None"
    and "1 \<le> retryBudget p w"
  shows "retrying (retryBudget p w) (run (CallRequest p # failures (length (exchanges w)) errs) w)
       \<and> length (exchanges (run (CallRequest p # failures (length (exchanges w)) errs) w))
           = length (exchanges w) + length errs + 1
       \<and> attemptsIssued (run (CallRequest p # failures (length (exchanges w)) errs) w)
           = attemptsIssued w + length errs + 1
       \<and> filter isDelivery (trace (run (CallRequest p # failures (length (exchanges w)) errs) w))
           = filter isDelivery (trace w)"
proof (induction errs rule: rev_induct)
  case Nil
  show ?case using chain_start [OF assms] by simp
next
  case (snoc e errs)
  let ?n = "length (exchanges w)"
  let ?ts = "CallRequest p # failures ?n errs"
  let ?w = "run ?ts w"
  have len: "length (exchanges ?w) = ?n + length errs + 1"
    and inv: "retrying (retryBudget p w) ?w"
    and att: "attemptsIssued ?w = attemptsIssued w + length errs + 1"
    and del: "filter isDelivery (trace ?w) = filter isDelivery (trace w)"
    using snoc.IH by simp_all
  have idx: "?n + length errs = length (exchanges ?w) - 1"
    using len by simp
  have "CallRequest p # failures ?n (errs @ [e]) =
      ?ts @ [ConnectionResult (?n + length errs) (Failed e)]"
    by (simp add: failures_append)
  then have r: "run (CallRequest p # failures ?n (errs @ [e])) w =
      step (ConnectionResult (length (exchanges ?w) - 1) (Failed e)) ?w"
    unfolding idx by (simp only: run_append run.simps)
  show ?case
    unfolding r using chain_step [OF inv assms(7), of e] len att del
    by (simp del: step.simps run.simps)
qed

lemma deliveries_filter:
  "deliveries i w = length (filter (deliveredTo i) (filter isDelivery (trace w)))"
proof -
  have "(\<lambda>a. isDelivery a \<and> deliveredTo i a) = deliveredTo i"
  proof
    fix a show "(isDelivery a \<and> deliveredTo i a) = deliveredTo i a"
      by (cases a) simp_all
  qed
  then show ?thesis by (simp add: deliveries_def)
qed

text \<open>
  Claim C1 does not hold on the code. Take a request without a body whose resolved budget
  is at least 1, on a Transport that does not sniff and whose pool always answers, and let
  every attempt fail at the network level. Then every failure is answered with another
  attempt: after \<open>n\<close> failures \<open>n + 1\<close> attempts have been issued (for a budget
  \<open>N\<close>, \<open>N + 2\<close> attempts after \<open>N + 1\<close> failures), and the exchange in flight has
  again at least one attempt left. When the counter stored on the params has come down to
  zero, line 82 reads it as absent and falls back on the budget.
\<close>

theorem C1_retries_never_exhausted:
  assumes "sniffInterval w = None" and "\<not> sniffOnConnectionFault w"
    and "\<forall>n. poolAnswers w n \<noteq> None"
    and "p_body p = None" and "p_bulkBody p = None" and "p_remainingAttempts p = None"
    and "1 \<le> retryBudget p w"
  shows "attemptsIssued (run (CallRequest p # failures (length (exchanges w)) errs) w)
           = attemptsIssued w + length errs + 1
       \<and> x_phase (last (exchanges (run (CallRequest p # failures (length (exchanges w)) errs) w)))
           = Waiting
       \<and> 1 \<le> x_attempts
                (last (exchanges (run (CallRequest p # failures (length (exchanges w)) errs) w)))"
  using chain [OF assms, of errs] by (simp add: retrying_def)

text \<open>
  Claim C2 does not hold on the code, for the same reason as C1: on the same inputs, no
  number of failed attempts leads to a run of the caller's callback.
\<close>

theorem C2_callback_never_run:
  assumes "sniffInterval w = None" and "\<not> sniffOnConnectionFault w"
    and "\<forall>n. poolAnswers w n \<noteq> None"
    and "p_body p = None" and "p_bulkBody p = None" and "p_remainingAttempts p = None"
    and "1 \<le> retryBudget p w"
  shows "deliveries i (run (CallRequest p # failures (length (exchanges w)) errs) w)
           = deliveries i w"
  using chain [OF assms, of errs] by (simp add: deliveries_filter)

text \<open>On the example Transport with a budget of one retry.\<close>

lemma example_quiet:
  "sniffInterval (exampleTransport r) = None" "\<not> sniffOnConnectionFault (exampleTransport r)"
  "\<forall>n. poolAnswers (exampleTransport r) n \<noteq> None"
  "p_body (exampleParams m) = None" "p_bulkBody (exampleParams m) = None"
  "p_remainingAttempts (exampleParams m) = None"
  "retryBudget (exampleParams m) (exampleTransport r) = r"
  by (simp_all add: exampleParams_def retryBudget_def)

theorem C1_retries_never_exhausted_witness:
  "retryBudget (exampleParams ''GET'') (exampleTransport 1) = 1
   \<and> attemptsIssued
        (run (CallRequest (exampleParams ''GET'') #
              failures 0 [NetFailure ''ECONNREFUSED'', NetFailure ''ECONNREFUSED'',
                          NetFailure ''ECONNREFUSED''])
           (exampleTransport 1)) = 4
   \<and> x_phase (last (exchanges
        (run (CallRequest (exampleParams ''GET'') #
              failures 0 [NetFailure ''ECONNREFUSED'', NetFailure ''ECONNREFUSED'',
                          NetFailure ''ECONNREFUSED''])
           (exampleTransport 1)))) = Waiting"
proof -
  have b: "1 \<le> retryBudget (exampleParams ''GET'') (exampleTransport 1)"
    by (simp add: example_quiet)
  from C1_retries_never_exhausted [OF example_quiet(1,2,3,4,5,6) b,
      of "[NetFailure ''ECONNREFUSED'', NetFailure ''ECONNREFUSED'', NetFailure ''ECONNREFUSED'']"]
  show ?thesis
    by (simp add: example_quiet attemptsIssued_def del: run.simps failures.simps)
qed

theorem C2_callback_never_run_witness:
  "retryBudget (exampleParams ''GET'') (exampleTransport 1) = 1
   \<and> deliveries 0
        (run (CallRequest (exampleParams ''GET'') #
              failures 0 [NetFailure ''ECONNREFUSED'', NetTimeout ''Request timed out'',
                          NetFailure ''ECONNREFUSED'', NetTimeout ''Request timed out''])
           (exampleTransport 1)) = 0"
proof -
  have b: "1 \<le> retryBudget (exampleParams ''GET'') (exampleTransport 1)"
    by (simp add: example_quiet)
  from C2_callback_never_run [OF example_quiet(1,2,3,4,5,6) b,
      of 0 "[NetFailure ''ECONNREFUSED'', NetTimeout ''Request timed out'',
             NetFailure ''ECONNREFUSED'', NetTimeout ''Request timed out'']"]
  show ?thesis
    by (simp add: example_quiet deliveries_def del: run.simps failures.simps)
qed

text \<open>The counters of the chain on the example Transport with budget 1.\<close>

lemma example_counters:
  "map x_attempts (exchanges
     (run (CallRequest (exampleParams ''GET'') #
           failures 0 [NetFailure ''ECONNREFUSED'', NetFailure ''ECONNREFUSED''])
        (exampleTransport 1))) = [1, 1, 1]
   \<and> map (\<lambda>x. p_remainingAttempts (x_params x)) (exchanges
     (run (CallRequest (exampleParams ''GET'') #
           failures 0 [NetFailure ''ECONNREFUSED'', NetFailure ''ECONNREFUSED''])
        (exampleTransport 1))) = [None, Some 0, Some 0]"
  by (simp add: eval_defs exampleParams_def)

section \<open>A sniff run whose discovery request keeps failing\<close>

text \<open>
  While a sniff run is in progress the selection of a connection does not sniff, so a
  request without a body opens an exchange as on a Transport that does not sniff.
\<close>

lemma failuresAt_append:
  "failuresAt i (fs @ [(t, e)]) =
     failuresAt i fs @ [Tick t, ConnectionResult (i + length fs) (Failed e)]"
  by (induction i fs rule: failuresAt.induct) simp_all

lemma getConnection_busy:
  "isSniffing w \<Longrightarrow>
   getConnection w =
     (poolAnswers w (poolCalls w),
      w\<lparr>poolCalls := Suc (poolCalls w), trace := trace w @ [PoolResurrect (now w)]\<rparr>)"
  by (simp add: getConnection.simps sniff.simps Let_def logged_def)

lemma request_busy:
  assumes "isSniffing w" "poolAnswers w (poolCalls w) = Some c"
    and "p_body p = None" "p_bulkBody p = None"
  shows "\<exists>q. request p cb w =
          w\<lparr>poolCalls := Suc (poolCalls w), nextGuard := Suc (nextGuard w),
            exchanges := exchanges w @
                [\<lparr>x_connection = c, x_params = q,
                  x_attempts = orElse (p_remainingAttempts p) (orElse (p_maxRetries p) (maxRetries w)),
                  x_callback = Once (nextGuard w) cb,
                  x_result = emptyResult, x_statusCode = 0, x_headers = [], x_payload = [],
                  x_phase = Waiting\<rparr>],
            trace := trace w @ [PoolResurrect (now w), QSerialize (p_querystring p),
                                EmitRequest c q, ConnRequest c q]\<rparr>
       \<and> p_body q = None \<and> p_bulkBody q = None \<and> p_maxRetries q = p_maxRetries p"
proof -
  let ?p1 = "p\<lparr>p_headers := Some (case p_headers p of Some h \<Rightarrow> h | None \<Rightarrow> [])\<rparr>"
  let ?w1 = "w\<lparr>poolCalls := Suc (poolCalls w), nextGuard := Suc (nextGuard w),
          trace := trace w @ [PoolResurrect (now w)]\<rparr>"
  have g: "getConnection (w\<lparr>nextGuard := Suc (nextGuard w)\<rparr>) = (Some c, ?w1)"
    using assms(1,2) by (simp add: getConnection_busy)
  have h: "handleBody (serializer ?w1) p = ([], Inr ?p1)"
    using assms(3,4) by (rule handleBody_none)
  have r: "request p cb w =
      send c ?p1 (Once (nextGuard w) cb)
        (orElse (p_remainingAttempts p) (orElse (p_maxRetries p) (maxRetries w))) ?w1"
    using request_sent [OF g h, of cb] by simp
  show ?thesis
    apply (rule exI [of _ "outgoing ?w1 ?p1"])
    using assms(3,4) by (simp add: r send_world)
qed

lemma discover_start:
  assumes "\<not> isSniffing w" "\<forall>n. poolAnswers w n \<noteq> None" "1 \<le> maxRetries w"
  shows "discovering (sniff cb w)
       \<and> length (exchanges (sniff cb w)) = Suc (length (exchanges w))
       \<and> nextSniff (sniff cb w) = nextSniff w
       \<and> now (sniff cb w) = now w"
proof -
  let ?w = "w\<lparr>isSniffing := True\<rparr>"
  let ?p = "sniffRequest w"
  obtain c where c: "poolAnswers ?w (poolCalls ?w) = Some c"
    using assms(2) by auto
  have p: "p_body ?p = None" "p_bulkBody ?p = None" "p_maxRetries ?p = None"
    "p_remainingAttempts ?p = None"
    by (simp_all add: sniffRequest_def)
  obtain q where q: "request ?p (SniffDone cb) ?w =
          ?w\<lparr>poolCalls := Suc (poolCalls ?w), nextGuard := Suc (nextGuard ?w),
            exchanges := exchanges ?w @
                [\<lparr>x_connection = c, x_params = q,
                  x_attempts = orElse (p_remainingAttempts ?p) (orElse (p_maxRetries ?p) (maxRetries ?w)),
                  x_callback = Once (nextGuard ?w) (SniffDone cb),
                  x_result = emptyResult, x_statusCode = 0, x_headers = [], x_payload = [],
                  x_phase = Waiting\<rparr>],
            trace := trace ?w @ [PoolResurrect (now ?w), QSerialize (p_querystring ?p),
                                EmitRequest c q, ConnRequest c q]\<rparr>"
    "p_body q = None" "p_bulkBody q = None" "p_maxRetries q = p_maxRetries ?p"
    using request_busy [OF _ c p(1,2), of "SniffDone cb"] by auto
  have s: "sniff cb w = request ?p (SniffDone cb) ?w"
    using assms(1) by (simp add: sniff.simps)
  show ?thesis
    unfolding s q(1) using assms q(2,3,4) p by (simp add: discovering_def)
qed

lemma discover_step:
  assumes "discovering w"
  shows "discovering (step (ConnectionResult (length (exchanges w) - 1) (Failed e)) w)
       \<and> length (exchanges (step (ConnectionResult (length (exchanges w) - 1) (Failed e)) w))
           = Suc (length (exchanges w))
       \<and> nextSniff (step (ConnectionResult (length (exchanges w) - 1) (Failed e)) w) = nextSniff w
       \<and> now (step (ConnectionResult (length (exchanges w) - 1) (Failed e)) w) = now w"
proof -
  let ?i = "length (exchanges w) - 1"
  let ?x = "exchanges w ! ?i"
  have ne: "exchanges w \<noteq> []" and lx: "last (exchanges w) = ?x"
    using assms by (simp_all add: discovering_def last_conv_nth)
  have x: "x_phase ?x = Waiting" "1 \<le> x_attempts ?x" "p_body (x_params ?x) = None"
    "p_bulkBody (x_params ?x) = None" "p_maxRetries (x_params ?x) = None"
    and w: "isSniffing w" "\<forall>n. poolAnswers w n \<noteq> None" "1 \<le> maxRetries w"
    using assms by (simp_all add: discovering_def lx)
  let ?w1 = "logged [MarkDead (x_connection ?x)] (setExchange ?i (?x\<lparr>x_phase := Closed\<rparr>) w)"
  let ?p = "(x_params ?x)\<lparr>p_remainingAttempts := Some (x_attempts ?x - 1)\<rparr>"
  have ph: "inPhase ?i Waiting w"
    using ne x(1) by (simp add: inPhase_def)
  have busy: "isSniffing ?w1" using w(1) by simp
  have sn: "sniff Noop ?w1 = ?w1" using busy by (simp add: sniff.simps)
  have s: "step (ConnectionResult ?i (Failed e)) w = request ?p (x_callback ?x) ?w1"
    using ph x(2) sn by (simp add: connectionCallback_def Let_def)
  obtain c where c: "poolAnswers ?w1 (poolCalls ?w1) = Some c"
    using w(2) by auto
  obtain q where q: "request ?p (x_callback ?x) ?w1 =
          ?w1\<lparr>poolCalls := Suc (poolCalls ?w1), nextGuard := Suc (nextGuard ?w1),
            exchanges := exchanges ?w1 @
                [\<lparr>x_connection = c, x_params = q,
                  x_attempts = orElse (p_remainingAttempts ?p) (orElse (p_maxRetries ?p) (maxRetries ?w1)),
                  x_callback = Once (nextGuard ?w1) (x_callback ?x),
                  x_result = emptyResult, x_statusCode = 0, x_headers = [], x_payload = [],
                  x_phase = Waiting\<rparr>],
            trace := trace ?w1 @ [PoolResurrect (now ?w1), QSerialize (p_querystring ?p),
                                EmitRequest c q, ConnRequest c q]\<rparr>"
    "p_body q = None" "p_bulkBody q = None" "p_maxRetries q = p_maxRetries ?p"
    using request_busy [OF busy c, of ?p "x_callback ?x"] x(3,4) by auto
  have a: "1 \<le> orElse (p_remainingAttempts ?p) (orElse (p_maxRetries ?p) (maxRetries ?w1))"
    using x(2,5) w(3) by simp
  show ?thesis
    unfolding s q(1)
    using a q(2,3,4) w x(2,5) ne
    by (simp add: discovering_def)
qed

lemma discover_tick:
  assumes "discovering w"
  shows "discovering (step (Tick t) w)
       \<and> length (exchanges (step (Tick t) w)) = length (exchanges w)
       \<and> nextSniff (step (Tick t) w) = nextSniff w
       \<and> now (step (Tick t) w) = t"
  using assms by (simp add: discovering_def)

lemma discover_chain:
  assumes "\<not> isSniffing w" "\<forall>n. poolAnswers w n \<noteq> None" "1 \<le> maxRetries w"
  shows "discovering (run (CallSniff b # failuresAt (length (exchanges w)) fs) w)
       \<and> length (exchanges (run (CallSniff b # failuresAt (length (exchanges w)) fs) w))
           = length (exchanges w) + length fs + 1
       \<and> nextSniff (run (CallSniff b # failuresAt (length (exchanges w)) fs) w) = nextSniff w
       \<and> now (run (CallSniff b # failuresAt (length (exchanges w)) fs) w) = last (now w # map fst fs)"
proof (induction fs rule: rev_induct)
  case Nil
  show ?case using discover_start [OF assms] by (cases b) simp_all
next
  case (snoc f fs)
  obtain t e where f: "f = (t, e)" by (cases f)
  let ?n = "length (exchanges w)"
  let ?ts = "CallSniff b # failuresAt ?n fs"
  let ?w = "run ?ts w"
  let ?v = "step (Tick t) ?w"
  have len: "length (exchanges ?w) = ?n + length fs + 1"
    and inv: "discovering ?w"
    and nxt: "nextSniff ?w = nextSniff w"
    using snoc.IH by simp_all
  note tick = discover_tick [OF inv, of t]
  have idx: "?n + length fs = length (exchanges ?v) - 1"
    using len tick by simp
  have "CallSniff b # failuresAt ?n (fs @ [f]) =
      ?ts @ [Tick t, ConnectionResult (?n + length fs) (Failed e)]"
    by (simp add: failuresAt_append f)
  then have r: "run (CallSniff b # failuresAt ?n (fs @ [f])) w =
      step (ConnectionResult (length (exchanges ?v) - 1) (Failed e)) ?v"
    unfolding idx by (simp only: run_append run.simps)
  show ?case
    unfolding r using discover_step [OF tick [THEN conjunct1], of e] tick len nxt f
    by (simp del: step.simps run.simps)
qed

text \<open>
  Claim C9 does not hold on the code, for the same reason as C1. Take a Transport that is
  not sniffing, whose pool always answers and whose budget is at least 1, start a sniff
  run, and let every attempt of its discovery request fail at the network level, at any
  times. Then the run never completes: after any number of failures \<open>isSniffing\<close> is
  still set and \<open>nextSniff\<close> is what it was before the run, whatever the time is by
  then; and because the flag is set, every further call of \<open>sniff\<close> returns at once. The
  callback that clears the flag is only run when a call has no attempt left, and line 82
  reads the stored counter 0 as absent.
\<close>

theorem C9_discovery_never_completes:
  assumes "\<not> isSniffing w" and "\<forall>n. poolAnswers w n \<noteq> None" and "1 \<le> maxRetries w"
  shows "isSniffing (run (CallSniff b # failuresAt (length (exchanges w)) fs) w)
       \<and> nextSniff (run (CallSniff b # failuresAt (length (exchanges w)) fs) w) = nextSniff w
       \<and> now (run (CallSniff b # failuresAt (length (exchanges w)) fs) w) = last (now w # map fst fs)
       \<and> sniff k (run (CallSniff b # failuresAt (length (exchanges w)) fs) w) =
           run (CallSniff b # failuresAt (length (exchanges w)) fs) w"
  using discover_chain [OF assms, of b fs] by (simp add: discovering_def sniff.simps)

text \<open>
  On the Transport that sniffs every 1000 ms, with a budget of one retry: after three
  failures, at time 5000, the flag is set and the next sniff is still due at 1000.
\<close>

lemma sniffingWith_fields:
  "isSniffing (sniffingTransportWith r) = False"
  "poolAnswers (sniffingTransportWith r) = (\<lambda>n. Some 0)"
  "maxRetries (sniffingTransportWith r) = r"
  "exchanges (sniffingTransportWith r) = []"
  "nextSniff (sniffingTransportWith r) = 1000"
  "now (sniffingTransportWith r) = 0"
  "sniffInterval (sniffingTransportWith r) = Some 1000"
  by (simp_all add: sniffingTransportWith_def newTransport_def exampleOptions_def)

theorem C9_discovery_never_completes_witness:
  "\<not> isSniffing (sniffingTransportWith 1)
   \<and> maxRetries (sniffingTransportWith 1) = 1
   \<and> sniffInterval (sniffingTransportWith 1) = Some 1000
   \<and> isSniffing (run (CallSniff False #
        failuresAt 0 [(5, NetFailure ''ECONNREFUSED''), (2000, NetTimeout ''Request timed out''),
                      (5000, NetFailure ''ECONNREFUSED'')]) (sniffingTransportWith 1))
   \<and> nextSniff (run (CallSniff False #
        failuresAt 0 [(5, NetFailure ''ECONNREFUSED''), (2000, NetTimeout ''Request timed out''),
                      (5000, NetFailure ''ECONNREFUSED'')]) (sniffingTransportWith 1)) = 1000
   \<and> now (run (CallSniff False #
        failuresAt 0 [(5, NetFailure ''ECONNREFUSED''), (2000, NetTimeout ''Request timed out''),
                      (5000, NetFailure ''ECONNREFUSED'')]) (sniffingTransportWith 1)) = 5000"
proof -
  have h: "\<not> isSniffing (sniffingTransportWith 1)"
    "\<forall>n. poolAnswers (sniffingTransportWith 1) n \<noteq> None"
    "1 \<le> maxRetries (sniffingTransportWith 1)"
    by (simp_all add: sniffingWith_fields)
  from C9_discovery_never_completes [OF h, of False
      "[(5, NetFailure ''ECONNREFUSED''), (2000, NetTimeout ''Request timed out''),
        (5000, NetFailure ''ECONNREFUSED'')]"]
  show ?thesis
    by (simp add: sniffingWith_fields del: run.simps failuresAt.simps)
qed

text \<open>
  With a budget of zero the first failure ends the run: the flag is cleared and the next
  sniff is due 1000 ms after the failure.
\<close>

lemma discovery_without_retries:
  "isSniffing (run [CallSniff False, Tick 5] sniffingTransport)
   \<and> \<not> isSniffing (run [CallSniff False, Tick 5,
          ConnectionResult 0 (Failed (NetFailure ''ECONNREFUSED''))] sniffingTransport)
   \<and> nextSniff (run [CallSniff False, Tick 5,
          ConnectionResult 0 (Failed (NetFailure ''ECONNREFUSED''))] sniffingTransport) = 1005"
  by (simp add: sniffingTransport_def newTransport_def exampleOptions_def eval_defs
        sniffRequest_def invoke_SniffDone)

section \<open>The promise form of the endpoint functions\<close>

declare snapshotGetRepository.simps [simp del] xpackMigrationGetAssistance.simps [simp del]

lemma settle_promiseOf: "settle (Called SettlePromise e res) = promiseOf (Called SettlePromise e res)"
  by (cases e) simp_all

lemma snapshotGetRepository_callback_form:
  "\<exists>e res. snapshotGetRepository opts (ArgParams obj) (Some k) = Called k e res"
  by (subst snapshotGetRepository.simps) (simp split: sum.splits)

text \<open>
  A call with a function first is the call with empty params and that function as the
  callback; the promise branch makes exactly this call, whatever the params were.
\<close>

lemma snapshotGetRepository_function_first:
  "snapshotGetRepository opts (ArgFunction k) cb = snapshotGetRepository opts (ArgParams []) (Some k)"
  by (simp add: snapshotGetRepository.simps [of opts "ArgFunction k"]
        snapshotGetRepository.simps [of opts "ArgParams []"])

lemma snapshotGetRepository_promise_form:
  "snapshotGetRepository opts (ArgParams obj) None =
     Promised (promiseOf (snapshotGetRepository opts (ArgParams []) (Some SettlePromise)))"
proof -
  obtain e res where c:
    "snapshotGetRepository opts (ArgParams []) (Some SettlePromise) = Called SettlePromise e res"
    using snapshotGetRepository_callback_form [of opts "[]" SettlePromise] by blast
  have "snapshotGetRepository opts (ArgParams obj) None =
      Promised (settle (snapshotGetRepository opts (ArgFunction SettlePromise) None))"
    by (simp add: snapshotGetRepository.simps [of opts "ArgParams obj"])
  then show ?thesis
    by (simp add: snapshotGetRepository_function_first c settle_promiseOf)
qed

lemma xpackMigrationGetAssistance_callback_form:
  "\<exists>e res. xpackMigrationGetAssistance opts (ArgParams obj) (Some k) = Called k e res"
  by (subst xpackMigrationGetAssistance.simps) (simp split: sum.splits)

lemma xpackMigrationGetAssistance_function_first:
  "xpackMigrationGetAssistance opts (ArgFunction k) cb =
     xpackMigrationGetAssistance opts (ArgParams []) (Some k)"
  by (simp add: xpackMigrationGetAssistance.simps [of opts "ArgFunction k"]
        xpackMigrationGetAssistance.simps [of opts "ArgParams []"])

lemma xpackMigrationGetAssistance_promise_form:
  "xpackMigrationGetAssistance opts (ArgParams obj) None =
     Promised (promiseOf (xpackMigrationGetAssistance opts (ArgParams []) (Some SettlePromise)))"
proof -
  obtain e res where c:
    "xpackMigrationGetAssistance opts (ArgParams []) (Some SettlePromise) =
       Called SettlePromise e res"
    using xpackMigrationGetAssistance_callback_form [of opts "[]" SettlePromise] by blast
  have "xpackMigrationGetAssistance opts (ArgParams obj) None =
      Promised (settle (xpackMigrationGetAssistance opts (ArgFunction SettlePromise) None))"
    by (simp add: xpackMigrationGetAssistance.simps [of opts "ArgParams obj"])
  then show ?thesis
    by (simp add: xpackMigrationGetAssistance_function_first c settle_promiseOf)
qed

lemma snapshotGetRepository_with_callback:
  "snapshotGetRepository opts (ArgParams params) (Some k) =
     (if \<not> nullish (getProp params ''body'')
      then Called k (Some (ConfigurationError ''This API does not require a body''))
             (o_result opts)
      else (case buildRequest (encodeURIComponent opts)
                   [JStr ''_snapshot'', getProp params ''repository''] params
                   (buildQuerystring
                      [''master_timeout'', ''local'', ''pretty'', ''human'', ''error_trace'',
                       ''source'', ''filter_path'']
                      [''masterTimeout'', ''local'', ''pretty'', ''human'', ''errorTrace'',
                       ''source'', ''filterPath'']
                      params (map fst params) []) of
              Inl err \<Rightarrow> Called k (Some err) (o_result opts)
            | Inr req \<Rightarrow> Called k (fst (makeRequest opts req)) (snd (makeRequest opts req))))"
  by (simp add: snapshotGetRepository.simps [of opts "ArgParams params" "Some k"])

lemma xpackMigrationGetAssistance_with_callback:
  "xpackMigrationGetAssistance opts (ArgParams params) (Some k) =
     (case buildRequest (encodeURIComponent opts)
             [JStr ''_xpack'', JStr ''migration'', JStr ''assistance'', getProp params ''index'']
             params
             (buildQuerystring
                [''allow_no_indices'', ''expand_wildcards'', ''ignore_unavailable'']
                [''allowNoIndices'', ''expandWildcards'', ''ignoreUnavailable'']
                params (map fst params) []) of
        Inl err \<Rightarrow> Called k (Some err) (o_result opts)
      | Inr req \<Rightarrow> Called k (fst (makeRequest opts req)) (snd (makeRequest opts req)))"
  by (simp add: xpackMigrationGetAssistance.simps [of opts "ArgParams params" "Some k"])

text \<open>
  Claim C5 does not hold on the code. Called with params and no callback, an endpoint
  function returns the promise of the callback form on \<^emph>\<open>empty\<close> params: the call
  inside the promise passes the arrow function alone. With a Transport that answers with
  the path of the request: the promise form of \<open>snapshotGetRepository\<close> for the
  repository \<open>backup\<close> resolves with the path without the repository, where the callback
  form delivers the path with it; for params with a body it resolves, where the callback
  form delivers a ConfigurationError; and likewise for the index of
  \<open>xpackMigrationGetAssistance\<close>.
\<close>

theorem C5_promise_form_drops_params:
  "snapshotGetRepository echoOpts (ArgParams [(''repository'', JStr ''backup'')]) None =
     Promised (Resolved ''/_snapshot'')
   \<and> promiseOf (snapshotGetRepository echoOpts (ArgParams [(''repository'', JStr ''backup'')])
                  (Some (UserFunction 0))) =
     Resolved ''/_snapshot/backup''
   \<and> snapshotGetRepository echoOpts (ArgParams [(''body'', JStr ''{}'')]) None =
     Promised (Resolved ''/_snapshot'')
   \<and> promiseOf (snapshotGetRepository echoOpts (ArgParams [(''body'', JStr ''{}'')])
                  (Some (UserFunction 0))) =
     Rejected (ConfigurationError ''This API does not require a body'')
   \<and> xpackMigrationGetAssistance echoOpts (ArgParams [(''index'', JStr ''logs'')]) None =
     Promised (Resolved ''/_xpack/migration/assistance'')
   \<and> promiseOf (xpackMigrationGetAssistance echoOpts (ArgParams [(''index'', JStr ''logs'')])
                  (Some (UserFunction 0))) =
     Resolved ''/_xpack/migration/assistance/logs''"
  by (simp add: snapshotGetRepository_promise_form xpackMigrationGetAssistance_promise_form
        snapshotGetRepository_with_callback xpackMigrationGetAssistance_with_callback
        echoOpts_def buildRequest_def getProp_def Let_def)

section \<open>The Warning header\<close>

text \<open>
  Claim C7 does not hold on the code. The separator expression does not look at the quotes
  before a comma, only at the first quote after it: a comma separates exactly when no
  double quote follows it, or the first one that follows is followed by a word character
  (lemma \<open>separator_rule\<close>). A header with two warnings, the second of which starts with
  a bracket inside its quotes, is returned as one string, where the rule of the claim
  gives two; and a comma inside quotes splits when the closing quote is followed by a
  letter.
\<close>

theorem C7_split_differs_from_rule:
  \<open>splitWarning ''299 - "a", 299 - "[b]"'' = [''299 - "a", 299 - "[b]"'']
   \<and> specSplitWarning ''299 - "a", 299 - "[b]"'' = [''299 - "a"'', '' 299 - "[b]"'']
   \<and> splitWarning ''299 - "a, b"c'' = [''299 - "a'', '' b"c'']
   \<and> specSplitWarning ''299 - "a, b"c'' = [''299 - "a, b"c'']\<close>
  by (simp add: splitWarning_def warningSeparator_def isWordChar_def specSplitWarning_def)

text \<open>The example of the claim is split as the claim says: one string.\<close>

lemma warning_example:
  \<open>splitWarning ''299 - "msg, with, commas"'' = [''299 - "msg, with, commas"'']\<close>
  by (simp add: splitWarning_def warningSeparator_def isWordChar_def)


section \<open>The single-invocation guard\<close>

text \<open>
  \<^verbatim>\<open>request\<close> wraps its callback in \<^verbatim>\<open>once\<close> (line 80) before anything else, and a retry
  passes the wrapped callback on, so every path to the caller's callback goes through the guard
  that the first call created. The invariant \<^const>\<open>guardedWorld\<close> says that every exchange in
  flight holds a callback whose target is behind one of its own guards, that no caller has been
  run more than once, and that a caller that has been run has its guard spent. Every handler
  preserves it, so in every interleaving of calls, connection results and stream events a
  caller's callback runs at most once.
\<close>

lemma deliveries_logged [simp]:
  "deliveries i (logged acts w) = deliveries i w + length (filter (deliveredTo i) acts)"
  by (simp add: deliveries_def)

lemma deliveries_setExchange [simp]: "deliveries i (setExchange j x w) = deliveries i w"
  by (simp add: deliveries_def)

lemma invoke_onceCalled: "onceCalled w g \<Longrightarrow> onceCalled (invoke k e v w) g"
  by (induction k arbitrary: e v w)
     (auto simp: invoke_SniffDone Let_def split: option.splits cbval.splits)

lemma invoke_deliveries_le: "deliveries i (invoke k e v w) \<le> deliveries i w + 1"
proof (induction k arbitrary: e v w)
  case (Once g k)
  show ?case
    using Once [where w = "w\<lparr>onceCalled := (onceCalled w)(g := True)\<rparr>" and e = e and v = v]
    by (simp add: deliveries_def)
next
  case (SniffDone k)
  define w2 where "w2 = w\<lparr>isSniffing := False,
      nextSniff := (case sniffInterval w of Some d \<Rightarrow> now w + d | None \<Rightarrow> nextSniff w)\<rparr>"
  have d: "deliveries i w2 = deliveries i w" by (simp add: w2_def deliveries_def)
  have "deliveries i (invoke k e' v' (logged [a] w2)) \<le> deliveries i w + 1"
    if "\<not> deliveredTo i a" for e' v' a
    using SniffDone [where w = "logged [a] w2" and e = e' and v = v'] that d by simp
  then show ?case
    using d by (cases e; cases v) (simp_all add: invoke_SniffDone Let_def w2_def [symmetric])
qed simp_all

lemma invoke_deliveries_other: "target k \<noteq> Some i \<Longrightarrow> deliveries i (invoke k e v w) = deliveries i w"
proof (induction k arbitrary: e v w)
  case (Once g k)
  show ?case
    using Once.IH [where w = "w\<lparr>onceCalled := (onceCalled w)(g := True)\<rparr>" and e = e and v = v]
      Once.prems
    by (simp add: deliveries_def)
next
  case (SniffDone k)
  define w2 where "w2 = w\<lparr>isSniffing := False,
      nextSniff := (case sniffInterval w of Some d \<Rightarrow> now w + d | None \<Rightarrow> nextSniff w)\<rparr>"
  have d: "deliveries i w2 = deliveries i w" by (simp add: w2_def deliveries_def)
  have "deliveries i (invoke k e' v' (logged [a] w2)) = deliveries i w"
    if "\<not> deliveredTo i a" for e' v' a
    using SniffDone.IH [where w = "logged [a] w2" and e = e' and v = v'] SniffDone.prems that d
    by simp
  then show ?case
    using d by (cases e; cases v) (simp_all add: invoke_SniffDone Let_def w2_def [symmetric])
qed simp_all

lemma invoke_blocked:
  "g \<in> set (guardsOf k) \<Longrightarrow> onceCalled w g \<Longrightarrow> deliveries i (invoke k e v w) = deliveries i w"
proof (induction k arbitrary: e v w)
  case (Once g' k)
  show ?case
  proof (cases "onceCalled w g'")
    case True
    then show ?thesis by simp
  next
    case False
    with Once.prems have "g \<in> set (guardsOf k)" by auto
    then show ?thesis
      using Once.IH [where w = "w\<lparr>onceCalled := (onceCalled w)(g' := True)\<rparr>" and e = e and v = v]
        Once.prems False
      by (simp add: deliveries_def)
  qed
next
  case (SniffDone k)
  define w2 where "w2 = w\<lparr>isSniffing := False,
      nextSniff := (case sniffInterval w of Some d \<Rightarrow> now w + d | None \<Rightarrow> nextSniff w)\<rparr>"
  have d: "deliveries i w2 = deliveries i w" "onceCalled w2 g"
    using SniffDone.prems by (simp_all add: w2_def deliveries_def)
  have "deliveries i (invoke k e' v' (logged [a] w2)) = deliveries i w"
    if "\<not> deliveredTo i a" for e' v' a
    using SniffDone.IH [where w = "logged [a] w2" and e = e' and v = v'] SniffDone.prems that d
    by simp
  then show ?case
    using d by (cases e; cases v) (simp_all add: invoke_SniffDone Let_def w2_def [symmetric])
qed simp_all

lemma invoke_marks:
  "deliveries i (invoke k e v w) \<noteq> deliveries i w \<Longrightarrow> g \<in> set (guardsOf k) \<Longrightarrow>
   onceCalled (invoke k e v w) g"
proof (induction k arbitrary: e v w)
  case (Once g' k)
  show ?case
  proof (cases "onceCalled w g'")
    case True
    with Once.prems show ?thesis by simp
  next
    case False
    let ?w = "w\<lparr>onceCalled := (onceCalled w)(g' := True)\<rparr>"
    have c: "deliveries i (invoke k e v ?w) \<noteq> deliveries i ?w"
      using Once.prems(1) False by (simp add: deliveries_def)
    show ?thesis
    proof (cases "g = g'")
      case True
      have "onceCalled (invoke k e v ?w) g'" by (rule invoke_onceCalled) simp
      with True False show ?thesis by simp
    next
      case neq: False
      with Once.prems(2) have "g \<in> set (guardsOf k)" by simp
      from Once.IH [OF c this] False show ?thesis by simp
    qed
  qed
next
  case (SniffDone k)
  define w2 where "w2 = w\<lparr>isSniffing := False,
      nextSniff := (case sniffInterval w of Some d \<Rightarrow> now w + d | None \<Rightarrow> nextSniff w)\<rparr>"
  have d: "deliveries i w2 = deliveries i w" by (simp add: w2_def deliveries_def)
  have g: "g \<in> set (guardsOf k)" using SniffDone.prems(2) by simp
  have s: "onceCalled (invoke k e' v' (logged [a] w2)) g"
    if "\<not> deliveredTo i a" "deliveries i (invoke k e' v' (logged [a] w2)) \<noteq> deliveries i w"
    for e' v' a
    using SniffDone.IH [where w = "logged [a] w2" and e = e' and v = v', OF _ g] that d by simp
  show ?case
    using SniffDone.prems(1) d s
    by (cases e; cases v) (simp_all add: invoke_SniffDone Let_def w2_def [symmetric])
qed simp_all

lemma guardedWorld_invoke:
  assumes "guardedWorld w" "guarded k"
  shows "guardedWorld (invoke k e v w)"
proof -
  let ?w = "invoke k e v w"
  have ex: "\<forall>x \<in> set (exchanges ?w). guarded (x_callback x)"
    using assms(1) by (simp add: guardedWorld_def)
  have "deliveries i ?w \<le> 1 \<and> (deliveries i ?w = 1 \<longrightarrow> onceCalled ?w i)" for i
  proof (cases "deliveries i ?w = deliveries i w")
    case True
    then show ?thesis
      using assms(1) invoke_onceCalled [of w i k e v] by (auto simp: guardedWorld_def)
  next
    case False
    then have t: "target k = Some i"
      using invoke_deliveries_other [of k i e v w] by auto
    with assms(2) have m: "i \<in> set (guardsOf k)" by (simp add: guarded_def)
    have nc: "\<not> onceCalled w i"
      using invoke_blocked [OF m, of w i e v] False by auto
    then have z: "deliveries i w = 0"
      using assms(1) by (auto simp: guardedWorld_def dest: spec [of _ i])
    have "deliveries i ?w \<le> 1"
      using invoke_deliveries_le [of i k e v w] z by simp
    moreover have "onceCalled ?w i" using invoke_marks [OF False m] .
    ultimately show ?thesis by simp
  qed
  with ex show ?thesis by (simp add: guardedWorld_def)
qed

lemma guardedWorld_cong:
  "exchanges w' = exchanges w \<Longrightarrow> trace w' = trace w \<Longrightarrow> onceCalled w' = onceCalled w \<Longrightarrow>
   guardedWorld w' = guardedWorld w"
  by (simp add: guardedWorld_def deliveries_def)

lemma no_delivery_filter:
  "\<forall>a \<in> set acts. \<not> isDelivery a \<Longrightarrow> filter (deliveredTo i) acts = []"
proof (induction acts)
  case (Cons a acts)
  then show ?case by (cases a) simp_all
qed simp

lemma guardedWorld_logged:
  "\<forall>a \<in> set acts. \<not> isDelivery a \<Longrightarrow> guardedWorld w \<Longrightarrow> guardedWorld (logged acts w)"
  by (simp add: guardedWorld_def no_delivery_filter)

lemma guardedWorld_setExchange:
  assumes "guardedWorld w" "guarded (x_callback x)"
  shows "guardedWorld (setExchange i x w)"
proof -
  have "set ((exchanges w)[i := x]) \<subseteq> insert x (set (exchanges w))"
    by (rule set_update_subset_insert)
  with assms show ?thesis by (auto simp: guardedWorld_def)
qed

lemma guardedWorld_send:
  assumes "guardedWorld w" "guarded k"
  shows "guardedWorld (send c p k a w)"
  using assms by (simp add: send_world guardedWorld_def deliveries_def)

lemma handleBody_no_delivery:
  "handleBody ser p = (acts, r) \<Longrightarrow> \<forall>a \<in> set acts. \<not> isDelivery a"
  by (auto simp: handleBody_def Let_def split: option.splits if_splits sum.splits)

text \<open>
  The three methods are mutually recursive (a request may sniff, a sniff is a request), so
  the invariant is established for all three at once, along their call graph.
\<close>

lemma guardedWorld_request:
  "guardedWorld w \<Longrightarrow> guarded (Once (nextGuard w) cb) \<Longrightarrow> guardedWorld (request p cb w)"
  "guardedWorld w \<Longrightarrow> guardedWorld (snd (getConnection w))"
  "guardedWorld w \<Longrightarrow> guarded (Once (nextGuard w) cb) \<Longrightarrow> guardedWorld (sniff cb w)"
proof (induction p cb w and w and cb w rule: request_getConnection_sniff.induct)
  case (1 p cb w)
  define w0 where "w0 = w\<lparr>nextGuard := Suc (nextGuard w)\<rparr>"
  obtain c w1 where g: "getConnection w0 = (c, w1)" by (cases "getConnection w0")
  have "guardedWorld w0"
    using "1.prems"(1) guardedWorld_cong [of w0 w] by (simp add: w0_def)
  then have a: "guardedWorld w1"
    using "1.IH" [of "Once (nextGuard w) cb" w0] g by (simp add: w0_def)
  note k = "1.prems"(2)
  show ?case
  proof (cases c)
    case None
    have r: "request p cb w =
        invoke (Once (nextGuard w) cb)
          (Some (NoLivingConnectionsError ''There are not living connections''))
          (Response emptyResult) w1"
      using g None by (intro request_none) (simp add: w0_def)
    show ?thesis unfolding r using a k by (rule guardedWorld_invoke)
  next
    case (Some c')
    obtain acts r where h: "handleBody (serializer w1) p = (acts, r)"
      by (cases "handleBody (serializer w1) p")
    have b: "guardedWorld (logged acts w1)"
      using handleBody_no_delivery [OF h] a by (rule guardedWorld_logged)
    show ?thesis
    proof (cases r)
      case (Inl err)
      have r: "request p cb w =
          invoke (Once (nextGuard w) cb) (Some err) (Response emptyResult) (logged acts w1)"
        using g Some h Inl by (intro request_thrown [of w c']) (simp_all add: w0_def)
      show ?thesis unfolding r using b k by (rule guardedWorld_invoke)
    next
      case (Inr p1)
      have r: "request p cb w =
          send c' p1 (Once (nextGuard w) cb)
            (orElse (p_remainingAttempts p) (orElse (p_maxRetries p) (maxRetries w)))
            (logged acts w1)"
        using g Some h Inr by (intro request_sent) (simp_all add: w0_def)
      show ?thesis unfolding r using b k by (rule guardedWorld_send)
    qed
  qed
next
  case (2 w)
  define w1 where "w1 = (if sniffEnabled w \<and> now w > nextSniff w then sniff Noop w else w)"
  have a: "guardedWorld w1"
    using 2 by (simp add: w1_def guarded_def)
  have "snd (getConnection w) =
      (logged [PoolResurrect (now w)] w1)\<lparr>poolCalls := poolCalls w1 + 1\<rparr>"
    by (simp add: getConnection.simps [of w] Let_def w1_def)
  moreover have "guardedWorld ((logged [PoolResurrect (now w)] w1)\<lparr>poolCalls := poolCalls w1 + 1\<rparr>)"
    using guardedWorld_logged [of "[PoolResurrect (now w)]" w1] a
      guardedWorld_cong [of "(logged [PoolResurrect (now w)] w1)\<lparr>poolCalls := poolCalls w1 + 1\<rparr>"
        "logged [PoolResurrect (now w)] w1"]
    by simp
  ultimately show ?case by simp
next
  case (3 cb w)
  show ?case
  proof (cases "isSniffing w")
    case True
    with "3.prems" show ?thesis by (simp add: sniff.simps)
  next
    case False
    have a: "guardedWorld (w\<lparr>isSniffing := True\<rparr>)"
      using "3.prems"(1) guardedWorld_cong [of "w\<lparr>isSniffing := True\<rparr>" w] by simp
    have b: "guarded (Once (nextGuard (w\<lparr>isSniffing := True\<rparr>)) (SniffDone cb))"
      using "3.prems"(2) by (simp add: guarded_def split: option.splits)
    show ?thesis
      using "3.IH" [OF False a b] False by (simp add: sniff.simps)
  qed
qed

text \<open>The handlers of the events of an exchange, and the turns of the environment.\<close>

lemma guardedWorld_exchange:
  "guardedWorld w \<Longrightarrow> i < length (exchanges w) \<Longrightarrow> guarded (x_callback (exchanges w ! i))"
  by (simp add: guardedWorld_def)

lemma guarded_Once: "guarded k \<Longrightarrow> guarded (Once g k)"
  by (simp add: guarded_def split: option.splits)

lemma guardedWorld_connectionCallback:
  assumes "guardedWorld w" "i < length (exchanges w)"
  shows "guardedWorld (connectionCallback i cr w)"
proof -
  let ?x = "exchanges w ! i"
  have k: "guarded (x_callback ?x)" using assms by (rule guardedWorld_exchange)
  show ?thesis
  proof (cases cr)
    case (Failed err)
    let ?w1 = "logged [MarkDead (x_connection ?x)] (setExchange i (?x\<lparr>x_phase := Closed\<rparr>) w)"
    let ?w2 = "if sniffOnConnectionFault ?w1 then sniff Noop ?w1 else ?w1"
    have "guardedWorld (setExchange i (?x\<lparr>x_phase := Closed\<rparr>) w)"
      using assms(1) k by (intro guardedWorld_setExchange) simp_all
    then have w1: "guardedWorld ?w1" by (intro guardedWorld_logged) simp_all
    have w2: "guardedWorld ?w2"
      using w1 guardedWorld_request(3) [OF w1, of Noop] by (simp add: guarded_def)
    show ?thesis
    proof (cases "x_attempts ?x > 0")
      case True
      have "guardedWorld (request ((x_params ?x)\<lparr>p_remainingAttempts := Some (x_attempts ?x - 1)\<rparr>)
          (x_callback ?x) ?w2)"
        using w2 k by (intro guardedWorld_request(1) guarded_Once)
      with True Failed show ?thesis by (simp add: connectionCallback_def Let_def)
    next
      case False
      have "guardedWorld (invoke (x_callback ?x) e v (logged [a] ?w2))" if "\<not> isDelivery a" for e v a
        using w2 k that by (intro guardedWorld_invoke guardedWorld_logged) simp_all
      with False Failed show ?thesis
        by (cases err) (simp_all add: connectionCallback_def Let_def)
    qed
  next
    case (Responded statusCode headers)
    have a: "guardedWorld (setExchange i (?x\<lparr>x_result := r, x_statusCode := s, x_headers := h,
        x_phase := ph\<rparr>) w)" for r s h ph
      using assms(1) k by (intro guardedWorld_setExchange) simp_all
    have "guardedWorld (invoke (x_callback ?x) e v (logged [b]
        (setExchange i (?x\<lparr>x_result := r, x_statusCode := s, x_headers := h, x_phase := ph\<rparr>) w)))"
      if "\<not> isDelivery b" for e v b r s h ph
      using a k that by (intro guardedWorld_invoke guardedWorld_logged) simp_all
    with a Responded show ?thesis
      by (simp add: connectionCallback_def Let_def)
  qed
qed

lemma guardedWorld_onData:
  assumes "guardedWorld w" "i < length (exchanges w)"
  shows "guardedWorld (onData i chunk w)"
  using assms guardedWorld_exchange [OF assms]
  by (simp add: onData_def Let_def guardedWorld_setExchange)

lemma guardedWorld_onError:
  assumes "guardedWorld w" "i < length (exchanges w)"
  shows "guardedWorld (onError i message w)"
  using assms guardedWorld_exchange [OF assms]
  by (simp add: onError_def Let_def guardedWorld_invoke)

lemma guardedWorld_deliver:
  assumes "guardedWorld w" "i < length (exchanges w)"
  shows "guardedWorld (deliver i res ign w)"
proof -
  let ?x = "exchanges w ! i"
  have k: "guarded (x_callback ?x)" using assms by (rule guardedWorld_exchange)
  have a: "guardedWorld (logged [EmitResponse (x_connection ?x) (x_params ?x) res] w)"
    using assms(1) by (intro guardedWorld_logged) simp_all
  have b: "guardedWorld (setExchange i (?x\<lparr>x_result := r\<rparr>)
      (logged [EmitResponse (x_connection ?x) (x_params ?x) res] w))" for r
    using a k by (intro guardedWorld_setExchange) simp_all
  show ?thesis
    using a b k by (simp add: deliver_def Let_def guardedWorld_invoke)
qed

lemma guardedWorld_classify:
  assumes "guardedWorld w" "i < length (exchanges w)"
  shows "guardedWorld (classify i res w)"
proof -
  let ?x = "exchanges w ! i"
  have k: "guarded (x_callback ?x)" using assms by (rule guardedWorld_exchange)
  let ?w0 = "setExchange i (?x\<lparr>x_result := res\<rparr>) w"
  have w0: "guardedWorld ?w0"
    using assms(1) k by (intro guardedWorld_setExchange) simp_all
  have l: "guardedWorld (logged [a] ?w0)" "i < length (exchanges (logged [a] ?w0))"
    if "\<not> isDelivery a" for a
    using w0 that assms(2) by (simp_all add: guardedWorld_logged)
  have d: "guardedWorld (deliver i res ign (logged [a] ?w0))" if "\<not> isDelivery a" for a ign
    using l [OF that] by (rule guardedWorld_deliver)
  have r: "guardedWorld (request p (x_callback ?x) (logged [a] ?w0))" if "\<not> isDelivery a" for a p
    using l(1) [OF that] k by (intro guardedWorld_request(1) guarded_Once)
  show ?thesis
    using d r by (simp add: classify_def Let_def)
qed

lemma readBody_no_delivery:
  "readBody ser x = (acts, r) \<Longrightarrow> \<forall>a \<in> set acts. \<not> isDelivery a"
  by (auto simp: readBody_def Let_def split: if_splits sum.splits)

lemma guardedWorld_onEnd:
  assumes "guardedWorld w" "i < length (exchanges w)"
  shows "guardedWorld (onEnd i w)"
proof -
  let ?x = "exchanges w ! i"
  have k: "guarded (x_callback ?x)" using assms by (rule guardedWorld_exchange)
  obtain acts r where h: "readBody (serializer w) ?x = (acts, r)"
    by (cases "readBody (serializer w) ?x")
  note n = readBody_no_delivery [OF h]
  show ?thesis
  proof (cases r)
    case (Inl err)
    have "guardedWorld (logged (acts @ [EmitError err (x_connection ?x) (x_params ?x)]) w)"
      using n assms(1) by (intro guardedWorld_logged) simp_all
    then show ?thesis
      using h Inl k by (simp add: onEnd_def Let_def guardedWorld_invoke)
  next
    case (Inr b)
    have "guardedWorld (logged acts w)" "i < length (exchanges (logged acts w))"
      using n assms by (simp_all add: guardedWorld_logged)
    then have "guardedWorld (classify i ((x_result ?x)\<lparr>r_body := b\<rparr>) (logged acts w))"
      by (rule guardedWorld_classify)
    then show ?thesis
      using h Inr by (simp add: onEnd_def Let_def)
  qed
qed

lemma guardedWorld_step: "guardedWorld w \<Longrightarrow> guardedWorld (step t w)"
proof (cases t)
  case (CallRequest p)
  assume "guardedWorld w"
  then show ?thesis
    using CallRequest by (simp add: guardedWorld_request(1) guarded_def)
next
  case (CallSniff b)
  assume "guardedWorld w"
  then show ?thesis
    using CallSniff by (cases b) (simp_all add: guardedWorld_request(3) guarded_def)
next
  case (ConnectionResult i cr)
  assume "guardedWorld w"
  then show ?thesis
    using ConnectionResult by (simp add: inPhase_def guardedWorld_connectionCallback)
next
  case (StreamData i chunk)
  assume "guardedWorld w"
  then show ?thesis
    using StreamData by (simp add: inPhase_def guardedWorld_onData)
next
  case (StreamError i message)
  assume "guardedWorld w"
  then show ?thesis
    using StreamError by (simp add: inPhase_def guardedWorld_onError)
next
  case (StreamEnd i)
  assume "guardedWorld w"
  then show ?thesis
    using StreamEnd by (simp add: inPhase_def guardedWorld_onEnd)
next
  case (Tick time)
  assume "guardedWorld w"
  then show ?thesis
    using Tick guardedWorld_cong [of "w\<lparr>now := time\<rparr>" w] by simp
qed

lemma guardedWorld_run: "guardedWorld w \<Longrightarrow> guardedWorld (run ts w)"
  by (induction ts arbitrary: w) (simp_all add: guardedWorld_step del: step.simps)

lemma guardedWorld_newTransport: "guardedWorld (newTransport opts lib time pool)"
proof -
  let ?w = "\<lparr>serializer = o_serializer opts,
               maxRetries = o_maxRetries opts,
               requestTimeout = toMs lib (o_requestTimeout opts),
               suggestCompression = o_suggestCompression opts,
               sniffInterval = o_sniffInterval opts,
               sniffOnConnectionFault = o_sniffOnConnectionFault opts,
               sniffEndpoint = o_sniffEndpoint opts,
               nextSniff = (case o_sniffInterval opts of Some d \<Rightarrow> time + d | None \<Rightarrow> 0),
               isSniffing = False,
               msLib = lib, now = time, poolAnswers = pool, poolCalls = 0,
               onceCalled = (\<lambda>g. False), nextGuard = 0, exchanges = [], trace = []\<rparr>"
  have a: "guardedWorld ?w" by (simp add: guardedWorld_def deliveries_def)
  then have "guardedWorld (sniff Noop ?w)"
    by (rule guardedWorld_request(3)) (simp add: guarded_def)
  with a show ?thesis by (simp add: newTransport_def Let_def)
qed

text \<open>
  From a new transport, whatever the environment does, no caller's callback is run twice.
\<close>

lemma at_most_one_delivery: "deliveries i (run ts (newTransport opts lib time pool)) \<le> 1"
  using guardedWorld_run [OF guardedWorld_newTransport, of ts opts lib time pool]
  by (simp add: guardedWorld_def)

end
